theory Spec2Isabelle
  imports Main "HOL-Library.Sublist"
begin

section \<open>The deployment CLI of \<^verbatim>\<open>src/cli/main.py\<close>\<close>

text \<open>
  The program drives \<^verbatim>\<open>kubectl\<close> through \<^verbatim>\<open>subprocess.run\<close>. Its only effects are
  the commands it starts, the records it hands to the logger, the lines it writes with
  \<^verbatim>\<open>tqdm.write\<close>, and the way the command ends (normal return, \<^verbatim>\<open>typer.Exit\<close>, or an
  exception that escapes). The model threads these through an explicit state and returns
  every exception as a value.
\<close>

subsection \<open>Data\<close>

type_synonym cmd = "string list"

text \<open>
  A \<^verbatim>\<open>pathlib.Path\<close> is kept as its list of parts (the first part holds the anchor and
  whatever precedes the parts this program appends). \<^verbatim>\<open>p / name\<close> appends a part,
  \<^verbatim>\<open>p.name\<close> is the final part, \<^verbatim>\<open>str(p)\<close> joins the parts with a slash.
\<close>

type_synonym path = "string list"

definition joinpath :: "path \<Rightarrow> string \<Rightarrow> path" where
  "joinpath p n = p @ [n]"

definition path_name :: "path \<Rightarrow> string" where
  "path_name p = (if p = [] then [] else last p)"

fun path_str :: "path \<Rightarrow> string" where
  "path_str [] = ''.''"
| "path_str [a] = a"
| "path_str (a # b # r) = a @ ''/'' @ path_str (b # r)"

text \<open>
  The exceptions the program can meet. \<^verbatim>\<open>CalledProcessError\<close> has the four attributes of
  the Python class: return code, command, captured output and captured stderr (both
  \<open>None\<close> when nothing was captured). \<^verbatim>\<open>OSError\<close> stands for the failure to start the
  child process (a missing or non-executable binary); \<^verbatim>\<open>Exit\<close> is \<^verbatim>\<open>typer.Exit(code)\<close>.
\<close>

datatype pyexn =
    CalledProcessError int cmd "string option" "string option"
  | OSError string
  | FileNotFoundError path
  | KeyError string
  | Exit int

text \<open>
  What one run of a child process does, as far as the parent can tell: it either cannot be
  started, or it exits with a return code after writing some text to the standard
  error stream it inherited from the parent.
\<close>

datatype proc_outcome = Exited int string | LaunchFailed string

fun exited_with :: "proc_outcome \<Rightarrow> int \<Rightarrow> bool" where
  "exited_with (Exited rc err) n = (rc = n)"
| "exited_with (LaunchFailed s) n = False"

record completed_process =
  args :: cmd
  returncode :: int

text \<open>
  The surroundings of the program: how the backend answers a command given the commands
  issued so far, which paths exist at that moment, and where the package \<^verbatim>\<open>cli\<close> is
  installed (\<^verbatim>\<open>importlib.resources.files("cli")\<close>). Every child process is assumed to end.
\<close>

record world =
  backend :: "cmd list \<Rightarrow> cmd \<Rightarrow> proc_outcome"
  path_exists :: "cmd list \<Rightarrow> path \<Rightarrow> bool"
  cli_pkg_dir :: path

text \<open>The severities of loguru that the program uses, with loguru's numbers.\<close>

datatype level = DEBUG | INFO | SUCCESS | WARNING | ERROR

fun level_no :: "level \<Rightarrow> nat" where
  "level_no DEBUG = 10"
| "level_no INFO = 20"
| "level_no SUCCESS = 25"
| "level_no WARNING = 30"
| "level_no ERROR = 40"

text \<open>
  One constructor for each message of the source, carrying the values its format string
  interpolates; the fixed (Chinese) wording is not reproduced. The number is the source line.
  \<^item> \<open>M_run_cmd\<close> (58): the command about to run and its working directory;
  \<^item> \<open>M_no_kubectl\<close> (70), \<open>M_no_context\<close> (75): the two preflight errors;
  \<^item> \<open>M_manifest_missing\<close> (86): manifest file not found;
  \<^item> \<open>M_deploy_start\<close> (128), \<open>M_applying\<close> (135, \<^verbatim>\<open>fp.name\<close>);
  \<^item> \<open>M_failed\<close> (139, \<^verbatim>\<open>fp.name\<close> and the exception),
    \<open>M_apply_exception\<close> (140, \<^verbatim>\<open>fp\<close> and the exception being handled);
  \<^item> \<open>M_wait_prometheus\<close> (145), \<open>M_wait_grafana\<close> (149);
  \<^item> \<open>M_deploy_done\<close> (153), \<open>M_ingress_hint\<close> (154), \<open>M_prometheus_url\<close> (155),
    \<open>M_grafana_url\<close> (156), \<open>M_dry_run_done\<close> (158);
  \<^item> \<open>M_unknown_stack\<close> (160 and 198), \<open>M_namespace_missing\<close> (190),
    \<open>M_delete_start\<close> (194).
\<close>

datatype msg =
    M_run_cmd cmd "path option"
  | M_no_kubectl
  | M_no_context
  | M_manifest_missing path
  | M_deploy_start
  | M_applying string
  | M_failed string pyexn
  | M_apply_exception path pyexn
  | M_wait_prometheus
  | M_wait_grafana
  | M_deploy_done
  | M_ingress_hint
  | M_prometheus_url
  | M_grafana_url
  | M_dry_run_done
  | M_unknown_stack string
  | M_namespace_missing string
  | M_delete_start

text \<open>
  What reaches the terminal's standard error: records the logger's sink let through, and
  the text a child process wrote there itself.
\<close>

datatype err_event = LogRecord level msg | ChildStderr string

text \<open>
  The state of one invocation: the commands started so far (oldest first), the threshold
  of the logger's sink (\<open>None\<close>: no sink), what was written to standard error, and the
  lines written with \<^verbatim>\<open>tqdm.write\<close>.
\<close>

record state =
  trace :: "cmd list"
  sink_level :: "nat option"
  err_stream :: "err_event list"
  out_stream :: "msg list"

subsection \<open>The stack registry\<close>

record K8sStack =
  stack_code :: string
  stack_description :: string
  files :: "string list"

text \<open>The descriptions are the UTF-8 bytes of the source's literals.\<close>

definition SUPPORT_STACKS :: "(string \<times> K8sStack) list" where
  "SUPPORT_STACKS =
    [(''monitoring'',
      \<lparr>stack_code = ''monitoring'',
       stack_description = ''Prometheus '' @ [CHR 0xE4, CHR 0xB8, CHR 0x8E] @ '' Grafana '' @
         [CHR 0xE7, CHR 0x9B, CHR 0x91, CHR 0xE6, CHR 0x8E, CHR 0xA7, CHR 0xE6, CHR 0xA0, CHR 0x88],
       files =
         [''namespace.yaml'',
          ''prometheus-rbac.yaml'',
          ''prometheus-config.yaml'',
          ''prometheus-deployment.yaml'',
          ''prometheus-service.yaml'',
          ''grafana-deployment.yaml'',
          ''grafana-service.yaml'',
          ''monitoring-ingress.yaml'']\<rparr>),
     (''elk'',
      \<lparr>stack_code = ''elk'',
       stack_description = ''ELK '' @
         [CHR 0xE6, CHR 0x97, CHR 0xA5, CHR 0xE5, CHR 0xBF, CHR 0x97, CHR 0xE6, CHR 0x94, CHR 0xB6,
          CHR 0xE9, CHR 0x9B, CHR 0x86, CHR 0xE6, CHR 0xA0, CHR 0x88],
       files = []\<rparr>),
     (''hadoop'',
      \<lparr>stack_code = ''hadoop'',
       stack_description = ''Hadoop '' @
         [CHR 0xE5, CHR 0xA4, CHR 0xA7, CHR 0xE6, CHR 0x95, CHR 0xB0, CHR 0xE6, CHR 0x8D, CHR 0xAE,
          CHR 0xE5, CHR 0xA4, CHR 0x84, CHR 0xE7, CHR 0x90, CHR 0x86, CHR 0xE6, CHR 0xA0, CHR 0x88],
       files = []\<rparr>)]"

subsection \<open>Logging and output\<close>

text \<open>\<^verbatim>\<open>logger.remove()\<close> drops every sink; \<^verbatim>\<open>logger.add(sys.stderr, level=l)\<close> installs one.\<close>

definition logger_remove :: "state \<Rightarrow> state" where
  "logger_remove st = st\<lparr>sink_level := None\<rparr>"

definition logger_add :: "level \<Rightarrow> state \<Rightarrow> state" where
  "logger_add l st = st\<lparr>sink_level := Some (level_no l)\<rparr>"

text \<open>A record reaches the sink when its severity is at least the sink's threshold.\<close>

definition logger_log :: "level \<Rightarrow> msg \<Rightarrow> state \<Rightarrow> state" where
  "logger_log l m st =
     (case sink_level st of
        None \<Rightarrow> st
      | Some n \<Rightarrow> if n \<le> level_no l then st\<lparr>err_stream := err_stream st @ [LogRecord l m]\<rparr> else st)"

definition tqdm_write :: "msg \<Rightarrow> state \<Rightarrow> state" where
  "tqdm_write m st = st\<lparr>out_stream := out_stream st @ [m]\<rparr>"

subsection \<open>Running commands\<close>

text \<open>
  \<^verbatim>\<open>run_cmd\<close>: log the command at DEBUG, start it, and let \<^verbatim>\<open>subprocess.run\<close> decide.
  Nothing is captured, so the child's standard error goes straight to the terminal and
  the \<^verbatim>\<open>CalledProcessError\<close> raised under \<^verbatim>\<open>check=True\<close> has neither output nor stderr.
\<close>

definition run_cmd :: "world \<Rightarrow> cmd \<Rightarrow> path option \<Rightarrow> bool \<Rightarrow> state \<Rightarrow> (pyexn + completed_process) \<times> state" where
  "run_cmd w c cwd check st =
     (let st1 = logger_log DEBUG (M_run_cmd c cwd) st;
          st2 = st1\<lparr>trace := trace st1 @ [c]\<rparr>
      in case backend w (trace st1) c of
           LaunchFailed s \<Rightarrow> (Inl (OSError s), st2)
         | Exited rc err \<Rightarrow>
             (let st3 = st2\<lparr>err_stream := err_stream st2 @ [ChildStderr err]\<rparr>
              in if check \<and> rc \<noteq> 0 then (Inl (CalledProcessError rc c None None), st3)
                 else (Inr \<lparr>args = c, returncode = rc\<rparr>, st3)))"

definition version_cmd :: cmd where
  "version_cmd = [''kubectl'', ''version'', ''--client'']"

definition context_cmd :: cmd where
  "context_cmd = [''kubectl'', ''config'', ''current-context'']"

definition ensure_kubectl :: "world \<Rightarrow> state \<Rightarrow> (pyexn + unit) \<times> state" where
  "ensure_kubectl w st =
     (case run_cmd w version_cmd None True st of
        (Inl e, st1) \<Rightarrow> (Inl e, logger_log ERROR M_no_kubectl st1)
      | (Inr _, st1) \<Rightarrow>
          (case run_cmd w context_cmd None True st1 of
             (Inl e, st2) \<Rightarrow> (Inl e, logger_log ERROR M_no_context st2)
           | (Inr _, st2) \<Rightarrow> (Inr (), st2)))"

definition apply_cmd :: "path \<Rightarrow> bool \<Rightarrow> cmd" where
  "apply_cmd file_path dry_run =
     [''kubectl'', ''apply'', ''-f'', path_str file_path] @ (if dry_run then [''--dry-run=server''] else [])"

definition apply_yaml :: "world \<Rightarrow> path \<Rightarrow> bool \<Rightarrow> state \<Rightarrow> (pyexn + unit) \<times> state" where
  "apply_yaml w file_path dry_run st =
     (if \<not> path_exists w (trace st) file_path
      then (Inl (FileNotFoundError file_path), logger_log ERROR (M_manifest_missing file_path) st)
      else (case run_cmd w (apply_cmd file_path dry_run) None True st of
              (Inl e, st1) \<Rightarrow> (Inl e, st1)
            | (Inr _, st1) \<Rightarrow> (Inr (), st1)))"

definition wait_cmd :: "string \<Rightarrow> string \<Rightarrow> string \<Rightarrow> cmd" where
  "wait_cmd label namespace timeout =
     [''kubectl'', ''wait'', ''--for=condition=ready'', ''pod'', ''-l'', label, ''-n'', namespace,
      ''--timeout='' @ timeout]"

text \<open>The timeout parameter of \<^verbatim>\<open>kubectl_wait\<close> is optional, with default \<^verbatim>\<open>"300s"\<close>.\<close>

definition kubectl_wait :: "world \<Rightarrow> string \<Rightarrow> string \<Rightarrow> string option \<Rightarrow> state \<Rightarrow> (pyexn + unit) \<times> state" where
  "kubectl_wait w label namespace timeout st =
     (let t = (case timeout of None \<Rightarrow> ''300s'' | Some s \<Rightarrow> s)
      in case run_cmd w (wait_cmd label namespace t) None True st of
           (Inl e, st1) \<Rightarrow> (Inl e, st1)
         | (Inr _, st1) \<Rightarrow> (Inr (), st1))"

definition resource_dir_for :: "world \<Rightarrow> string \<Rightarrow> path" where
  "resource_dir_for w stack = joinpath (joinpath (cli_pkg_dir w) ''resource'') stack"

subsection \<open>deploy\<close>

text \<open>
  The loop over the manifest files (lines 133 to 141): any exception of \<^verbatim>\<open>apply_yaml\<close> is
  reported on standard output and to the logger, and becomes \<^verbatim>\<open>typer.Exit(code=1)\<close>.
  The progress bar is terminal rendering and is left out.
\<close>

fun apply_files :: "world \<Rightarrow> bool \<Rightarrow> path list \<Rightarrow> state \<Rightarrow> (pyexn + unit) \<times> state" where
  "apply_files w dry_run [] st = (Inr (), st)"
| "apply_files w dry_run (fp # fps) st =
     (case apply_yaml w fp dry_run (tqdm_write (M_applying (path_name fp)) st) of
        (Inr _, st1) \<Rightarrow> apply_files w dry_run fps st1
      | (Inl e, st1) \<Rightarrow>
          (Inl (Exit 1),
           logger_log ERROR (M_apply_exception fp e) (tqdm_write (M_failed (path_name fp) e) st1)))"

text \<open>The two readiness waits (lines 144 to 151); an exception of the first skips the second.\<close>

definition wait_ready :: "world \<Rightarrow> string \<Rightarrow> state \<Rightarrow> (pyexn + unit) \<times> state" where
  "wait_ready w timeout st =
     (case kubectl_wait w ''app=prometheus'' ''monitoring'' (Some timeout) (tqdm_write M_wait_prometheus st) of
        (Inl e, st1) \<Rightarrow> (Inl e, st1)
      | (Inr _, st1) \<Rightarrow>
          kubectl_wait w ''app=grafana'' ''monitoring'' (Some timeout) (tqdm_write M_wait_grafana st1))"

definition deploy :: "world \<Rightarrow> string \<Rightarrow> bool \<Rightarrow> string \<Rightarrow> bool \<Rightarrow> state \<Rightarrow> (pyexn + unit) \<times> state" where
  "deploy w stack dry_run timeout verbose st =
     (let st0 = logger_add (if verbose then DEBUG else INFO) (logger_remove st)
      in case ensure_kubectl w st0 of
           (Inl e, st1) \<Rightarrow> (Inl e, st1)
         | (Inr _, st1) \<Rightarrow>
             if stack = ''monitoring'' then
               (let monitor_dir = resource_dir_for w ''monitoring'';
                    st2 = logger_log INFO M_deploy_start st1
                in case map_of SUPPORT_STACKS ''monitoring'' of
                     None \<Rightarrow> (Inl (KeyError ''monitoring''), st2)
                   | Some s \<Rightarrow>
                       (case apply_files w dry_run (map (joinpath monitor_dir) (files s)) st2 of
                          (Inl e, st3) \<Rightarrow> (Inl e, st3)
                        | (Inr _, st3) \<Rightarrow>
                            if \<not> dry_run then
                              (case wait_ready w timeout st3 of
                                 (Inl e, st4) \<Rightarrow> (Inl e, st4)
                               | (Inr _, st4) \<Rightarrow>
                                   (Inr (),
                                    logger_log INFO M_grafana_url
                                      (logger_log INFO M_prometheus_url
                                        (logger_log INFO M_ingress_hint
                                          (logger_log SUCCESS M_deploy_done st4)))))
                            else (Inr (), logger_log INFO M_dry_run_done st3)))
             else (Inl (Exit 2), logger_log ERROR (M_unknown_stack stack) st1))"


subsection \<open>delete\<close>

definition get_namespace_cmd :: "string \<Rightarrow> cmd" where
  "get_namespace_cmd stack = [''kubectl'', ''get'', ''namespaces'', stack]"

definition delete_namespace_cmd :: cmd where
  "delete_namespace_cmd = [''kubectl'', ''delete'', ''namespaces'', ''monitoring'']"

definition delete_stack :: "world \<Rightarrow> string \<Rightarrow> bool \<Rightarrow> state \<Rightarrow> (pyexn + unit) \<times> state" where
  "delete_stack w stack verbose st =
     (let st0 = logger_add (if verbose then DEBUG else INFO) (logger_remove st)
      in case ensure_kubectl w st0 of
           (Inl e, st1) \<Rightarrow> (Inl e, st1)
         | (Inr _, st1) \<Rightarrow>
             (case run_cmd w (get_namespace_cmd stack) None False st1 of
                (Inl e, st2) \<Rightarrow> (Inl e, st2)
              | (Inr result, st2) \<Rightarrow>
                  if returncode result \<noteq> 0
                  then (Inl (Exit 0), logger_log WARNING (M_namespace_missing stack) st2)
                  else if stack = ''monitoring'' then
                    (case run_cmd w delete_namespace_cmd None True (logger_log INFO M_delete_start st2) of
                       (Inl e, st3) \<Rightarrow> (Inl e, st3)
                     | (Inr _, st3) \<Rightarrow> (Inr (), st3))
                  else (Inl (Exit 2), logger_log ERROR (M_unknown_stack stack) st2)))"

text \<open>
  How the process ends: typer exits with 0 when the command returns, with the given code
  on \<^verbatim>\<open>typer.Exit\<close>; any other exception escapes \<^verbatim>\<open>app()\<close> and the interpreter exits with 1.
\<close>

fun exit_code :: "pyexn + unit \<Rightarrow> int" where
  "exit_code (Inr u) = 0"
| "exit_code (Inl (Exit c)) = c"
| "exit_code (Inl e) = 1"

text \<open>The commands an invocation started: the trace after it, without the trace before it.\<close>

definition issued :: "state \<Rightarrow> state \<Rightarrow> cmd list" where
  "issued st st' = drop (length (trace st)) (trace st')"


section \<open>Vocabulary of the properties\<close>

text \<open>
  What \<^verbatim>\<open>apply_yaml\<close> raises for a file when the commands in \<open>t\<close> have been issued:
  \<open>None\<close> when the file exists and the backend's apply exits with 0.
\<close>

definition apply_error :: "world \<Rightarrow> bool \<Rightarrow> cmd list \<Rightarrow> path \<Rightarrow> pyexn option" where
  "apply_error w dry_run t fp =
     (if \<not> path_exists w t fp then Some (FileNotFoundError fp)
      else (case backend w t (apply_cmd fp dry_run) of
              LaunchFailed s \<Rightarrow> Some (OSError s)
            | Exited rc err \<Rightarrow>
                if rc \<noteq> 0 then Some (CalledProcessError rc (apply_cmd fp dry_run) None None) else None))"

text \<open>Every file of the list, applied in order starting after \<open>t\<close>, is accepted.\<close>

fun applies_ok :: "world \<Rightarrow> bool \<Rightarrow> cmd list \<Rightarrow> path list \<Rightarrow> bool" where
  "applies_ok w dry_run t [] = True"
| "applies_ok w dry_run t (fp # fps) =
     (apply_error w dry_run t fp = None \<and> applies_ok w dry_run (t @ [apply_cmd fp dry_run]) fps)"

text \<open>Both preflight queries, issued after \<open>t\<close>, exit with 0.\<close>

definition preflight_ok :: "world \<Rightarrow> cmd list \<Rightarrow> bool" where
  "preflight_ok w t =
     (exited_with (backend w t version_cmd) 0 \<and> exited_with (backend w (t @ [version_cmd]) context_cmd) 0)"

text \<open>The file names the registry lists for a stack code, and their paths.\<close>

definition stack_files :: "string \<Rightarrow> string list" where
  "stack_files code = (case map_of SUPPORT_STACKS code of None \<Rightarrow> [] | Some s \<Rightarrow> files s)"

definition manifest_path :: "world \<Rightarrow> string \<Rightarrow> string \<Rightarrow> path" where
  "manifest_path w code name = joinpath (resource_dir_for w code) name"

definition manifest_paths :: "world \<Rightarrow> string \<Rightarrow> path list" where
  "manifest_paths w code = map (manifest_path w code) (stack_files code)"

text \<open>The state in which \<^verbatim>\<open>deploy\<close> enters its loop over the manifests (after line 128).\<close>

definition loop_start :: "world \<Rightarrow> bool \<Rightarrow> state \<Rightarrow> state" where
  "loop_start w verbose st =
     logger_log INFO M_deploy_start
       (snd (ensure_kubectl w (logger_add (if verbose then DEBUG else INFO) (logger_remove st))))"

text \<open>The second word of a command line: the kubectl subcommand.\<close>

definition subcommand :: "cmd \<Rightarrow> string" where
  "subcommand c = (case c of k # s # r \<Rightarrow> s | _ \<Rightarrow> [])"

text \<open>
  The strings a message is built from: the values its format string interpolates, an
  exception contributing the strings it holds. A message mentions a text when the text
  occurs in one of them.
\<close>

fun exn_texts :: "pyexn \<Rightarrow> string list" where
  "exn_texts (CalledProcessError rc c out err) =
     c @ (case out of None \<Rightarrow> [] | Some s \<Rightarrow> [s]) @ (case err of None \<Rightarrow> [] | Some s \<Rightarrow> [s])"
| "exn_texts (OSError s) = [s]"
| "exn_texts (FileNotFoundError p) = [path_str p]"
| "exn_texts (KeyError k) = [k]"
| "exn_texts (Exit c) = []"

fun msg_texts :: "msg \<Rightarrow> string list" where
  "msg_texts (M_run_cmd c cwd) = c @ (case cwd of None \<Rightarrow> [] | Some p \<Rightarrow> [path_str p])"
| "msg_texts (M_manifest_missing p) = [path_str p]"
| "msg_texts (M_applying n) = [n]"
| "msg_texts (M_failed n e) = n # exn_texts e"
| "msg_texts (M_apply_exception p e) = path_str p # exn_texts e"
| "msg_texts (M_unknown_stack s) = [s]"
| "msg_texts (M_namespace_missing s) = [s]"
| "msg_texts m = []"

definition mentions :: "msg \<Rightarrow> string \<Rightarrow> bool" where
  "mentions m s = list_ex (sublist s) (msg_texts m)"

subsection \<open>Concrete surroundings\<close>

text \<open>
  A fresh process (loguru's default sink is at DEBUG), and a cluster that accepts
  everything, with the package installed under \<^verbatim>\<open>/srv/cli\<close>.
\<close>

definition init_state :: state where
  "init_state = \<lparr>trace = [], sink_level = Some 10, err_stream = [], out_stream = []\<rparr>"

definition ok_world :: world where
  "ok_world = \<lparr>backend = (\<lambda>t c. Exited 0 []), path_exists = (\<lambda>t p. True), cli_pkg_dir = [''/srv'', ''cli'']\<rparr>"

text \<open>The manifests are missing from the installation.\<close>

definition no_files_world :: world where
  "no_files_world = ok_world\<lparr>path_exists := (\<lambda>t p. False)\<rparr>"

text \<open>kubectl is not installed.\<close>

definition no_kubectl_world :: world where
  "no_kubectl_world = ok_world\<lparr>backend := (\<lambda>t c. LaunchFailed ''kubectl'')\<rparr>"

text \<open>The namespace query answers that there is no such namespace.\<close>

definition absent_namespace_world :: world where
  "absent_namespace_world =
     ok_world\<lparr>backend := (\<lambda>t c. if subcommand c = ''get''
        then Exited 1 ''Error from server (NotFound)'' else Exited 0 [])\<rparr>"

text \<open>The namespace query fails because the cluster cannot be reached.\<close>

definition unreachable_cluster_world :: world where
  "unreachable_cluster_world =
     ok_world\<lparr>backend := (\<lambda>t c. if subcommand c = ''get''
        then Exited 1 ''The connection to the server was refused'' else Exited 0 [])\<rparr>"

text \<open>The cluster refuses the second manifest of the monitoring stack.\<close>

definition rejecting_world :: world where
  "rejecting_world =
     ok_world\<lparr>backend := (\<lambda>t c.
        if take 4 c = [''kubectl'', ''apply'', ''-f'', ''/srv/cli/resource/monitoring/prometheus-rbac.yaml'']
        then Exited 1 ''Error from server (Forbidden)'' else Exited 0 [])\<rparr>"

section \<open>Properties\<close>

subsection \<open>Effects of the building blocks\<close>


lemma logger_log_simps [simp]:
  "trace (logger_log l m st) = trace st"
  "sink_level (logger_log l m st) = sink_level st"
  "out_stream (logger_log l m st) = out_stream st"
  by (simp_all add: logger_log_def split: option.splits)

lemma tqdm_write_simps [simp]:
  "trace (tqdm_write m st) = trace st"
  "sink_level (tqdm_write m st) = sink_level st"
  "err_stream (tqdm_write m st) = err_stream st"
  "out_stream (tqdm_write m st) = out_stream st @ [m]"
  by (simp_all add: tqdm_write_def)

lemma logger_setup_simps [simp]:
  "trace (logger_add l st) = trace st"
  "trace (logger_remove st) = trace st"
  "out_stream (logger_add l st) = out_stream st"
  "out_stream (logger_remove st) = out_stream st"
  "sink_level (logger_add l st) = Some (level_no l)"
  by (simp_all add: logger_add_def logger_remove_def)

lemma logger_log_passes:
  "sink_level st = Some n \<Longrightarrow> n \<le> level_no l \<Longrightarrow>
   err_stream (logger_log l m st) = err_stream st @ [LogRecord l m]"
  by (simp add: logger_log_def)

lemma run_cmd_simps [simp]:
  "trace (snd (run_cmd w c cwd chk st)) = trace st @ [c]"
  "sink_level (snd (run_cmd w c cwd chk st)) = sink_level st"
  "out_stream (snd (run_cmd w c cwd chk st)) = out_stream st"
  by (cases "backend w (trace st) c"; simp add: run_cmd_def Let_def)+

lemma run_cmd_fst:
  "fst (run_cmd w c cwd chk st) =
     (case backend w (trace st) c of
        LaunchFailed s \<Rightarrow> Inl (OSError s)
      | Exited rc err \<Rightarrow>
          if chk \<and> rc \<noteq> 0 then Inl (CalledProcessError rc c None None)
          else Inr \<lparr>args = c, returncode = rc\<rparr>)"
  by (cases "backend w (trace st) c"; simp add: run_cmd_def Let_def)

lemma ensure_kubectl_simps [simp]:
  "sink_level (snd (ensure_kubectl w st)) = sink_level st"
  "out_stream (snd (ensure_kubectl w st)) = out_stream st"
  by (simp_all add: ensure_kubectl_def split_beta split: sum.splits)

lemma ensure_kubectl_fst:
  "fst (ensure_kubectl w st) =
     (case fst (run_cmd w version_cmd None True st) of
        Inl e \<Rightarrow> Inl e
      | Inr _ \<Rightarrow> (case fst (run_cmd w context_cmd None True (snd (run_cmd w version_cmd None True st))) of
           Inl e \<Rightarrow> Inl e | Inr _ \<Rightarrow> Inr ()))"
  by (simp add: ensure_kubectl_def split_beta split: sum.splits)

lemma ensure_kubectl_ok:
  "preflight_ok w (trace st) \<Longrightarrow>
     fst (ensure_kubectl w st) = Inr () \<and>
     trace (snd (ensure_kubectl w st)) = trace st @ [version_cmd, context_cmd]"
  by (cases "backend w (trace st) version_cmd"; cases "backend w (trace st @ [version_cmd]) context_cmd")
     (simp_all add: preflight_ok_def ensure_kubectl_def split_beta run_cmd_fst split: sum.splits)

lemma ensure_kubectl_fail:
  "\<not> preflight_ok w (trace st) \<Longrightarrow>
     (\<exists>e. fst (ensure_kubectl w st) = Inl e \<and> (\<forall>c. e \<noteq> Exit c)) \<and>
     (trace (snd (ensure_kubectl w st)) = trace st @ [version_cmd] \<or>
      trace (snd (ensure_kubectl w st)) = trace st @ [version_cmd, context_cmd])"
  by (cases "backend w (trace st) version_cmd"; cases "backend w (trace st @ [version_cmd]) context_cmd")
     (simp_all add: preflight_ok_def ensure_kubectl_def split_beta run_cmd_fst split: sum.splits)

lemma apply_yaml_simps [simp]:
  "sink_level (snd (apply_yaml w fp dry st)) = sink_level st"
  "out_stream (snd (apply_yaml w fp dry st)) = out_stream st"
  "trace (snd (apply_yaml w fp dry st)) =
     trace st @ (if path_exists w (trace st) fp then [apply_cmd fp dry] else [])"
  by (simp_all add: apply_yaml_def split_beta split: sum.splits)

lemma apply_yaml_fst:
  "fst (apply_yaml w fp dry st) =
     (case apply_error w dry (trace st) fp of None \<Rightarrow> Inr () | Some e \<Rightarrow> Inl e)"
  by (cases "backend w (trace st) (apply_cmd fp dry)")
     (simp_all add: apply_yaml_def apply_error_def split_beta run_cmd_fst split: sum.splits)

lemma apply_error_None_exists:
  "apply_error w dry t fp = None \<Longrightarrow> path_exists w t fp"
  by (simp add: apply_error_def split: if_splits)

lemma apply_files_sink [simp]:
  "sink_level (snd (apply_files w dry fps st)) = sink_level st"
  by (induction fps arbitrary: st) (simp_all add: split_beta split: sum.splits)

lemma apply_files_ok:
  "applies_ok w dry (trace st) fps \<Longrightarrow>
     fst (apply_files w dry fps st) = Inr () \<and>
     trace (snd (apply_files w dry fps st)) = trace st @ map (\<lambda>f. apply_cmd f dry) fps \<and>
     out_stream (snd (apply_files w dry fps st)) = out_stream st @ map (\<lambda>f. M_applying (path_name f)) fps"
proof (induction fps arbitrary: st)
  case Nil
  then show ?case by simp
next
  case (Cons fp fps)
  let ?st1 = "snd (apply_yaml w fp dry (tqdm_write (M_applying (path_name fp)) st))"
  from Cons.prems have ok: "apply_error w dry (trace st) fp = None"
    and rest: "applies_ok w dry (trace st @ [apply_cmd fp dry]) fps" by simp_all
  have ex: "path_exists w (trace st) fp" using ok by (rule apply_error_None_exists)
  have t1: "trace ?st1 = trace st @ [apply_cmd fp dry]" using ex by simp
  have r1: "fst (apply_yaml w fp dry (tqdm_write (M_applying (path_name fp)) st)) = Inr ()"
    using ok by (simp add: apply_yaml_fst)
  have step: "apply_files w dry (fp # fps) st = apply_files w dry fps ?st1"
    using r1 by (simp add: split_beta)
  from rest t1 have "applies_ok w dry (trace ?st1) fps" by simp
  from Cons.IH [OF this] show ?case unfolding step using t1 by simp
qed

lemma apply_files_fail:
  assumes "applies_ok w dry (trace st) pre"
    and "apply_error w dry (trace st @ map (\<lambda>f. apply_cmd f dry) pre) b = Some e"
    and "sink_level st = Some n" and "n \<le> 40"
  shows "fst (apply_files w dry (pre @ b # post) st) = Inl (Exit 1) \<and>
     trace (snd (apply_files w dry (pre @ b # post) st)) =
       trace st @ map (\<lambda>f. apply_cmd f dry) pre @
       (if path_exists w (trace st @ map (\<lambda>f. apply_cmd f dry) pre) b then [apply_cmd b dry] else []) \<and>
     out_stream (snd (apply_files w dry (pre @ b # post) st)) =
       out_stream st @ map (\<lambda>f. M_applying (path_name f)) pre @
       [M_applying (path_name b), M_failed (path_name b) e] \<and>
     (\<exists>es. err_stream (snd (apply_files w dry (pre @ b # post) st)) =
       es @ [LogRecord ERROR (M_apply_exception b e)])"
  using assms
proof (induction pre arbitrary: st)
  case Nil
  let ?r = "apply_yaml w b dry (tqdm_write (M_applying (path_name b)) st)"
  from Nil have r1: "fst ?r = Inl e" by (simp add: apply_yaml_fst)
  have step: "apply_files w dry (b # post) st =
      (Inl (Exit 1), logger_log ERROR (M_apply_exception b e) (tqdm_write (M_failed (path_name b) e) (snd ?r)))"
    using r1 by (simp add: split_beta)
  have sk: "sink_level (tqdm_write (M_failed (path_name b) e) (snd ?r)) = Some n"
    using Nil by simp
  show ?case unfolding append_Nil step
    using logger_log_passes [OF sk, of ERROR] Nil by simp
next
  case (Cons fp fps)
  let ?st1 = "snd (apply_yaml w fp dry (tqdm_write (M_applying (path_name fp)) st))"
  from Cons.prems have ok: "apply_error w dry (trace st) fp = None"
    and rest: "applies_ok w dry (trace st @ [apply_cmd fp dry]) fps" by simp_all
  have ex: "path_exists w (trace st) fp" using ok by (rule apply_error_None_exists)
  have t1: "trace ?st1 = trace st @ [apply_cmd fp dry]" using ex by simp
  have r1: "fst (apply_yaml w fp dry (tqdm_write (M_applying (path_name fp)) st)) = Inr ()"
    using ok by (simp add: apply_yaml_fst)
  have step: "apply_files w dry ((fp # fps) @ b # post) st = apply_files w dry (fps @ b # post) ?st1"
    using r1 by (simp add: split_beta)
  have a1: "applies_ok w dry (trace ?st1) fps" using rest t1 by simp
  have a2: "apply_error w dry (trace ?st1 @ map (\<lambda>f. apply_cmd f dry) fps) b = Some e"
    using Cons.prems(2) t1 by simp
  have a3: "sink_level ?st1 = Some n" using Cons.prems(3) by simp
  from Cons.IH [OF a1 a2 a3 Cons.prems(4)] show ?case unfolding step using t1 by simp
qed

lemma apply_files_trace_prefix:
  "\<exists>k\<le>length fps. trace (snd (apply_files w dry fps st)) = trace st @ map (\<lambda>f. apply_cmd f dry) (take k fps)"
proof (induction fps arbitrary: st)
  case Nil
  then show ?case by simp
next
  case (Cons fp fps)
  let ?r = "apply_yaml w fp dry (tqdm_write (M_applying (path_name fp)) st)"
  show ?case
  proof (cases "fst ?r")
    case (Inl e)
    then have tr: "trace (snd (apply_files w dry (fp # fps) st)) = trace (snd ?r)"
      by (simp add: split_beta)
    show ?thesis
    proof (cases "path_exists w (trace st) fp")
      case True
      then have "trace (snd (apply_files w dry (fp # fps) st)) =
          trace st @ map (\<lambda>f. apply_cmd f dry) (take 1 (fp # fps))" using tr by simp
      then show ?thesis by (intro exI [of _ 1]) simp
    next
      case False
      then have "trace (snd (apply_files w dry (fp # fps) st)) =
          trace st @ map (\<lambda>f. apply_cmd f dry) (take 0 (fp # fps))" using tr by simp
      then show ?thesis by (intro exI [of _ 0]) simp
    qed
  next
    case (Inr u)
    then have step: "apply_files w dry (fp # fps) st = apply_files w dry fps (snd ?r)"
      by (simp add: split_beta)
    from Inr have "apply_error w dry (trace st) fp = None"
      by (simp add: apply_yaml_fst split: option.splits)
    then have ex: "path_exists w (trace st) fp" by (rule apply_error_None_exists)
    from Cons.IH [of "snd ?r"] obtain k where k: "k \<le> length fps"
      and tk: "trace (snd (apply_files w dry fps (snd ?r))) =
          trace (snd ?r) @ map (\<lambda>f. apply_cmd f dry) (take k fps)" by blast
    have "trace (snd (apply_files w dry (fp # fps) st)) =
        trace st @ map (\<lambda>f. apply_cmd f dry) (take (Suc k) (fp # fps))"
      unfolding step tk using ex by simp
    with k show ?thesis by (intro exI [of _ "Suc k"]) simp
  qed
qed

lemma apply_files_trace_only:
  "trace st1 = trace st2 \<Longrightarrow>
     fst (apply_files w dry fps st1) = fst (apply_files w dry fps st2) \<and>
     trace (snd (apply_files w dry fps st1)) = trace (snd (apply_files w dry fps st2))"
proof (induction fps arbitrary: st1 st2)
  case Nil
  then show ?case by simp
next
  case (Cons fp fps)
  let ?r1 = "apply_yaml w fp dry (tqdm_write (M_applying (path_name fp)) st1)"
  let ?r2 = "apply_yaml w fp dry (tqdm_write (M_applying (path_name fp)) st2)"
  have f: "fst ?r1 = fst ?r2" using Cons.prems by (simp add: apply_yaml_fst)
  have t: "trace (snd ?r1) = trace (snd ?r2)" using Cons.prems by simp
  show ?case
  proof (cases "fst ?r1")
    case (Inl e)
    with f have "fst ?r2 = Inl e" by simp
    with Inl t show ?thesis by (simp add: split_beta)
  next
    case (Inr u)
    with f have "fst ?r2 = Inr u" by simp
    with Inr Cons.IH [OF t] show ?thesis by (simp add: split_beta)
  qed
qed

lemma ensure_kubectl_trace:
  "trace (snd (ensure_kubectl w st)) =
     trace st @ version_cmd # (if exited_with (backend w (trace st) version_cmd) 0 then [context_cmd] else [])"
  by (cases "backend w (trace st) version_cmd")
     (simp_all add: ensure_kubectl_def split_beta run_cmd_fst split: sum.splits)

lemma ensure_kubectl_trace_only:
  assumes t: "trace st1 = trace st2"
  shows "fst (ensure_kubectl w st1) = fst (ensure_kubectl w st2) \<and>
     trace (snd (ensure_kubectl w st1)) = trace (snd (ensure_kubectl w st2))"
proof -
  have a: "fst (run_cmd w version_cmd None True st1) = fst (run_cmd w version_cmd None True st2)"
    using t by (simp add: run_cmd_fst)
  have b: "fst (run_cmd w context_cmd None True (snd (run_cmd w version_cmd None True st1))) =
      fst (run_cmd w context_cmd None True (snd (run_cmd w version_cmd None True st2)))"
    using t by (simp add: run_cmd_fst)
  show ?thesis using t by (simp add: ensure_kubectl_fst ensure_kubectl_trace a b cong: sum.case_cong)
qed

lemma kubectl_wait_simps [simp]:
  "trace (snd (kubectl_wait w l ns (Some t) st)) = trace st @ [wait_cmd l ns t]"
  "sink_level (snd (kubectl_wait w l ns tm st)) = sink_level st"
  "out_stream (snd (kubectl_wait w l ns tm st)) = out_stream st"
  by (simp_all add: kubectl_wait_def Let_def split_beta split: sum.splits)

lemma kubectl_wait_fst:
  "fst (kubectl_wait w l ns (Some t) st) =
     (case backend w (trace st) (wait_cmd l ns t) of
        LaunchFailed s \<Rightarrow> Inl (OSError s)
      | Exited rc err \<Rightarrow>
          if rc \<noteq> 0 then Inl (CalledProcessError rc (wait_cmd l ns t) None None) else Inr ())"
  by (cases "backend w (trace st) (wait_cmd l ns t)")
     (simp_all add: kubectl_wait_def split_beta run_cmd_fst split: sum.splits)

lemma wait_ready_simps [simp]:
  "sink_level (snd (wait_ready w timeout st)) = sink_level st"
  by (simp_all add: wait_ready_def split_beta split: sum.splits)

lemma wait_ready_trace:
  "trace (snd (wait_ready w timeout st)) =
     trace st @ wait_cmd ''app=prometheus'' ''monitoring'' timeout #
       (if exited_with (backend w (trace st) (wait_cmd ''app=prometheus'' ''monitoring'' timeout)) 0
        then [wait_cmd ''app=grafana'' ''monitoring'' timeout] else [])"
  by (cases "backend w (trace st) (wait_cmd ''app=prometheus'' ''monitoring'' timeout)")
     (simp_all add: wait_ready_def split_beta kubectl_wait_fst split: sum.splits)

lemma wait_ready_fst:
  "fst (wait_ready w timeout st) =
     (case fst (kubectl_wait w ''app=prometheus'' ''monitoring'' (Some timeout) (tqdm_write M_wait_prometheus st)) of
        Inl e \<Rightarrow> Inl e
      | Inr _ \<Rightarrow> fst (kubectl_wait w ''app=grafana'' ''monitoring'' (Some timeout)
          (tqdm_write M_wait_grafana
            (snd (kubectl_wait w ''app=prometheus'' ''monitoring'' (Some timeout)
                   (tqdm_write M_wait_prometheus st))))))"
  by (simp add: wait_ready_def split_beta split: sum.splits)

lemma wait_ready_trace_only:
  assumes t: "trace st1 = trace st2"
  shows "fst (wait_ready w timeout st1) = fst (wait_ready w timeout st2) \<and>
     trace (snd (wait_ready w timeout st1)) = trace (snd (wait_ready w timeout st2))"
proof -
  have a: "fst (kubectl_wait w ''app=prometheus'' ''monitoring'' (Some timeout) (tqdm_write M_wait_prometheus st1)) =
      fst (kubectl_wait w ''app=prometheus'' ''monitoring'' (Some timeout) (tqdm_write M_wait_prometheus st2))"
    using t by (simp add: kubectl_wait_fst)
  have b: "fst (kubectl_wait w ''app=grafana'' ''monitoring'' (Some timeout)
          (tqdm_write M_wait_grafana
            (snd (kubectl_wait w ''app=prometheus'' ''monitoring'' (Some timeout)
                   (tqdm_write M_wait_prometheus st1))))) =
      fst (kubectl_wait w ''app=grafana'' ''monitoring'' (Some timeout)
          (tqdm_write M_wait_grafana
            (snd (kubectl_wait w ''app=prometheus'' ''monitoring'' (Some timeout)
                   (tqdm_write M_wait_prometheus st2)))))"
    using t by (simp add: kubectl_wait_fst)
  show ?thesis using t by (simp add: wait_ready_fst wait_ready_trace a b cong: sum.case_cong)
qed

lemma loop_start_simps [simp]:
  "sink_level (loop_start w verbose st) = Some (if verbose then 10 else 20)"
  "out_stream (loop_start w verbose st) = out_stream st"
  by (simp_all add: loop_start_def)

lemma loop_start_trace:
  "preflight_ok w (trace st) \<Longrightarrow> trace (loop_start w verbose st) = trace st @ [version_cmd, context_cmd]"
  by (simp add: loop_start_def ensure_kubectl_ok)

lemma monitoring_registered:
  "map_of SUPPORT_STACKS ''monitoring'' =
     Some \<lparr>stack_code = ''monitoring'',
       stack_description = ''Prometheus '' @ [CHR 0xE4, CHR 0xB8, CHR 0x8E] @ '' Grafana '' @
         [CHR 0xE7, CHR 0x9B, CHR 0x91, CHR 0xE6, CHR 0x8E, CHR 0xA7, CHR 0xE6, CHR 0xA0, CHR 0x88],
       files =
         [''namespace.yaml'', ''prometheus-rbac.yaml'', ''prometheus-config.yaml'',
          ''prometheus-deployment.yaml'', ''prometheus-service.yaml'', ''grafana-deployment.yaml'',
          ''grafana-service.yaml'', ''monitoring-ingress.yaml'']\<rparr>"
  by (simp add: SUPPORT_STACKS_def)

lemma deploy_preflight_failed:
  "\<not> preflight_ok w (trace st) \<Longrightarrow>
     deploy w stack dry timeout verbose st =
       ensure_kubectl w (logger_add (if verbose then DEBUG else INFO) (logger_remove st))"
proof -
  assume a: "\<not> preflight_ok w (trace st)"
  let ?st0 = "logger_add (if verbose then DEBUG else INFO) (logger_remove st)"
  from a have "\<not> preflight_ok w (trace ?st0)" by simp
  from ensure_kubectl_fail [OF this] obtain e where "fst (ensure_kubectl w ?st0) = Inl e" by blast
  then show ?thesis
    by (simp add: deploy_def Let_def split_beta prod_eq_iff)
qed

lemma deploy_unknown:
  "preflight_ok w (trace st) \<Longrightarrow> stack \<noteq> ''monitoring'' \<Longrightarrow>
     fst (deploy w stack dry timeout verbose st) = Inl (Exit 2) \<and>
     trace (snd (deploy w stack dry timeout verbose st)) = trace st @ [version_cmd, context_cmd]"
proof -
  assume a: "preflight_ok w (trace st)" and b: "stack \<noteq> ''monitoring''"
  let ?st0 = "logger_add (if verbose then DEBUG else INFO) (logger_remove st)"
  from a have "preflight_ok w (trace ?st0)" by simp
  from ensure_kubectl_ok [OF this] b show ?thesis
    by (simp add: deploy_def Let_def split_beta)
qed

lemma deploy_monitoring:
  "preflight_ok w (trace st) \<Longrightarrow>
     deploy w ''monitoring'' dry timeout verbose st =
       (case apply_files w dry (manifest_paths w ''monitoring'') (loop_start w verbose st) of
          (Inl e, st3) \<Rightarrow> (Inl e, st3)
        | (Inr _, st3) \<Rightarrow>
            if \<not> dry then
              (case wait_ready w timeout st3 of
                 (Inl e, st4) \<Rightarrow> (Inl e, st4)
               | (Inr _, st4) \<Rightarrow>
                   (Inr (),
                    logger_log INFO M_grafana_url
                      (logger_log INFO M_prometheus_url
                        (logger_log INFO M_ingress_hint
                          (logger_log SUCCESS M_deploy_done st4)))))
            else (Inr (), logger_log INFO M_dry_run_done st3))"
proof -
  assume a: "preflight_ok w (trace st)"
  let ?st0 = "logger_add (if verbose then DEBUG else INFO) (logger_remove st)"
  from a have "preflight_ok w (trace ?st0)" by simp
  from ensure_kubectl_ok [OF this] have "fst (ensure_kubectl w ?st0) = Inr ()" by simp
  then show ?thesis
    unfolding deploy_def manifest_paths_def manifest_path_def stack_files_def loop_start_def monitoring_registered Let_def
    by (simp add: split_beta cong: map_cong)
qed

lemma issued_append: "trace st' = trace st @ cs \<Longrightarrow> issued st st' = cs"
  by (simp add: issued_def)

lemma delete_preflight_failed:
  "\<not> preflight_ok w (trace st) \<Longrightarrow>
     delete_stack w stack verbose st =
       ensure_kubectl w (logger_add (if verbose then DEBUG else INFO) (logger_remove st))"
proof -
  assume a: "\<not> preflight_ok w (trace st)"
  let ?st0 = "logger_add (if verbose then DEBUG else INFO) (logger_remove st)"
  from a have "\<not> preflight_ok w (trace ?st0)" by simp
  from ensure_kubectl_fail [OF this] obtain e where "fst (ensure_kubectl w ?st0) = Inl e" by blast
  then show ?thesis
    by (simp add: delete_stack_def Let_def split_beta prod_eq_iff)
qed

lemma delete_check_launch_failed:
  assumes "preflight_ok w (trace st)"
    and "backend w (trace st @ [version_cmd, context_cmd]) (get_namespace_cmd stack) = LaunchFailed s"
  shows "fst (delete_stack w stack verbose st) = Inl (OSError s) \<and>
     trace (snd (delete_stack w stack verbose st)) =
       trace st @ [version_cmd, context_cmd, get_namespace_cmd stack]"
proof -
  let ?st0 = "logger_add (if verbose then DEBUG else INFO) (logger_remove st)"
  from assms(1) have "preflight_ok w (trace ?st0)" by simp
  from ensure_kubectl_ok [OF this] assms(2) show ?thesis
    by (simp add: delete_stack_def Let_def split_beta run_cmd_fst)
qed

lemma delete_check_nonzero:
  assumes "preflight_ok w (trace st)"
    and "backend w (trace st @ [version_cmd, context_cmd]) (get_namespace_cmd stack) = Exited rc err"
    and "rc \<noteq> 0"
  shows "fst (delete_stack w stack verbose st) = Inl (Exit 0) \<and>
     trace (snd (delete_stack w stack verbose st)) =
       trace st @ [version_cmd, context_cmd, get_namespace_cmd stack] \<and>
     (\<exists>es. err_stream (snd (delete_stack w stack verbose st)) =
       es @ [LogRecord WARNING (M_namespace_missing stack)])"
proof -
  let ?st0 = "logger_add (if verbose then DEBUG else INFO) (logger_remove st)"
  let ?st2 = "snd (run_cmd w (get_namespace_cmd stack) None False (snd (ensure_kubectl w ?st0)))"
  from assms(1) have "preflight_ok w (trace ?st0)" by simp
  from ensure_kubectl_ok [OF this] have ok: "fst (ensure_kubectl w ?st0) = Inr ()"
    and tr: "trace (snd (ensure_kubectl w ?st0)) = trace st @ [version_cmd, context_cmd]" by simp_all
  have rc: "fst (run_cmd w (get_namespace_cmd stack) None False (snd (ensure_kubectl w ?st0))) =
      Inr \<lparr>args = get_namespace_cmd stack, returncode = rc\<rparr>"
    using assms(2) tr by (simp add: run_cmd_fst)
  have eq: "delete_stack w stack verbose st =
      (Inl (Exit 0), logger_log WARNING (M_namespace_missing stack) ?st2)"
    using ok rc assms(3) by (simp add: delete_stack_def Let_def split_beta)
  have sk: "sink_level ?st2 = Some (if verbose then 10 else 20)" by simp
  have le: "(if verbose then 10 else 20) \<le> level_no WARNING" by simp
  show ?thesis unfolding eq using logger_log_passes [OF sk le] tr by simp
qed

lemma delete_check_zero_unknown:
  assumes "preflight_ok w (trace st)"
    and "backend w (trace st @ [version_cmd, context_cmd]) (get_namespace_cmd stack) = Exited 0 err"
    and "stack \<noteq> ''monitoring''"
  shows "fst (delete_stack w stack verbose st) = Inl (Exit 2) \<and>
     trace (snd (delete_stack w stack verbose st)) =
       trace st @ [version_cmd, context_cmd, get_namespace_cmd stack]"
proof -
  let ?st0 = "logger_add (if verbose then DEBUG else INFO) (logger_remove st)"
  from assms(1) have "preflight_ok w (trace ?st0)" by simp
  from ensure_kubectl_ok [OF this] have ok: "fst (ensure_kubectl w ?st0) = Inr ()"
    and tr: "trace (snd (ensure_kubectl w ?st0)) = trace st @ [version_cmd, context_cmd]" by simp_all
  have rc: "fst (run_cmd w (get_namespace_cmd stack) None False (snd (ensure_kubectl w ?st0))) =
      Inr \<lparr>args = get_namespace_cmd stack, returncode = 0\<rparr>"
    using assms(2) tr by (simp add: run_cmd_fst)
  show ?thesis using ok rc assms(3) tr by (simp add: delete_stack_def Let_def split_beta)
qed

lemma delete_check_zero_monitoring:
  assumes "preflight_ok w (trace st)"
    and "backend w (trace st @ [version_cmd, context_cmd]) (get_namespace_cmd ''monitoring'') = Exited 0 err"
  shows "fst (delete_stack w ''monitoring'' verbose st) =
       (case backend w (trace st @ [version_cmd, context_cmd, get_namespace_cmd ''monitoring''])
               delete_namespace_cmd of
          LaunchFailed s \<Rightarrow> Inl (OSError s)
        | Exited rc e \<Rightarrow> if rc \<noteq> 0 then Inl (CalledProcessError rc delete_namespace_cmd None None)
                         else Inr ()) \<and>
     trace (snd (delete_stack w ''monitoring'' verbose st)) =
       trace st @ [version_cmd, context_cmd, get_namespace_cmd ''monitoring'', delete_namespace_cmd]"
proof -
  let ?st0 = "logger_add (if verbose then DEBUG else INFO) (logger_remove st)"
  from assms(1) have "preflight_ok w (trace ?st0)" by simp
  from ensure_kubectl_ok [OF this] have ok: "fst (ensure_kubectl w ?st0) = Inr ()"
    and tr: "trace (snd (ensure_kubectl w ?st0)) = trace st @ [version_cmd, context_cmd]" by simp_all
  have rc: "fst (run_cmd w (get_namespace_cmd ''monitoring'') None False (snd (ensure_kubectl w ?st0))) =
      Inr \<lparr>args = get_namespace_cmd ''monitoring'', returncode = 0\<rparr>"
    using assms(2) tr by (simp add: run_cmd_fst)
  show ?thesis using ok rc tr
    by (cases "backend w (trace st @ [version_cmd, context_cmd, get_namespace_cmd ''monitoring''])
               delete_namespace_cmd")
       (simp_all add: delete_stack_def Let_def split_beta run_cmd_fst split: sum.splits)
qed

lemma apply_files_extends:
  "prefix (trace st) (trace (snd (apply_files w dry fps st)))"
  using apply_files_trace_prefix [of fps w dry st] by auto

lemma wait_ready_extends:
  "prefix (trace st) (trace (snd (wait_ready w timeout st)))"
  by (simp add: wait_ready_trace)

lemma deploy_extends_preflight:
  assumes p: "preflight_ok w (trace st)"
  shows "prefix (trace st @ [version_cmd, context_cmd]) (trace (snd (deploy w stack dry timeout verbose st)))"
proof (cases "stack = ''monitoring''")
  case False
  with deploy_unknown [OF p False] show ?thesis by simp
next
  case True
  let ?ls = "loop_start w verbose st"
  let ?a = "apply_files w dry (manifest_paths w ''monitoring'') ?ls"
  have l: "trace ?ls = trace st @ [version_cmd, context_cmd]" using p by (rule loop_start_trace)
  have a: "prefix (trace st @ [version_cmd, context_cmd]) (trace (snd ?a))"
    using apply_files_extends [of ?ls w dry] l by simp
  have w: "prefix (trace st @ [version_cmd, context_cmd]) (trace (snd (wait_ready w timeout (snd ?a))))"
    using a wait_ready_extends [of "snd ?a" w timeout] by (rule prefix_order.trans)
  show ?thesis unfolding True deploy_monitoring [OF p]
    using a w by (cases "fst ?a"; cases "fst (wait_ready w timeout (snd ?a))"; cases dry)
      (simp_all add: split_beta)
qed

lemma delete_extends_preflight:
  assumes p: "preflight_ok w (trace st)"
  shows "prefix (trace st @ [version_cmd, context_cmd]) (trace (snd (delete_stack w stack verbose st)))"
proof (cases "backend w (trace st @ [version_cmd, context_cmd]) (get_namespace_cmd stack)")
  case (LaunchFailed s)
  from delete_check_launch_failed [OF p LaunchFailed] show ?thesis by simp
next
  case (Exited rc err)
  show ?thesis
  proof (cases "rc = 0")
    case False
    from delete_check_nonzero [OF p Exited False] show ?thesis by simp
  next
    case True
    show ?thesis
    proof (cases "stack = ''monitoring''")
      case False
      from delete_check_zero_unknown [OF p Exited [unfolded True] False] show ?thesis by simp
    next
      case m: True
      from delete_check_zero_monitoring [OF p Exited [unfolded True m]] show ?thesis
        unfolding m by simp
    qed
  qed
qed

lemma deploy_monitoring_result:
  assumes p: "preflight_ok w (trace st)"
  shows "fst (deploy w ''monitoring'' dry timeout verbose st) =
       (case fst (apply_files w dry (manifest_paths w ''monitoring'') (loop_start w verbose st)) of
          Inl e \<Rightarrow> Inl e
        | Inr _ \<Rightarrow>
            if dry then Inr ()
            else (case fst (wait_ready w timeout
                    (snd (apply_files w dry (manifest_paths w ''monitoring'') (loop_start w verbose st)))) of
                    Inl e \<Rightarrow> Inl e | Inr _ \<Rightarrow> Inr ()))"
    and "trace (snd (deploy w ''monitoring'' dry timeout verbose st)) =
       (case fst (apply_files w dry (manifest_paths w ''monitoring'') (loop_start w verbose st)) of
          Inl e \<Rightarrow> trace (snd (apply_files w dry (manifest_paths w ''monitoring'') (loop_start w verbose st)))
        | Inr _ \<Rightarrow>
            if dry then trace (snd (apply_files w dry (manifest_paths w ''monitoring'') (loop_start w verbose st)))
            else trace (snd (wait_ready w timeout
                    (snd (apply_files w dry (manifest_paths w ''monitoring'') (loop_start w verbose st))))))"
  unfolding deploy_monitoring [OF p]
  by (simp_all add: split_beta split: sum.splits)

lemma path_name_joinpath [simp]: "path_name (joinpath d n) = n"
  by (simp add: path_name_def joinpath_def)

lemma path_str_snoc: "d \<noteq> [] \<Longrightarrow> path_str (d @ [n]) = path_str d @ ''/'' @ n"
  by (induction d rule: path_str.induct) simp_all

lemma manifest_path_name [simp]: "path_name (manifest_path w code n) = n"
  by (simp add: manifest_path_def)

lemma manifest_path_str:
  "path_str (manifest_path w code n) = path_str (resource_dir_for w code) @ ''/'' @ n"
  using path_str_snoc [of "cli_pkg_dir w @ [''resource'', code]" n]
  by (simp add: manifest_path_def joinpath_def resource_dir_for_def)

lemma apply_cmd_manifest_inj:
  "apply_cmd (manifest_path w code n) dry = apply_cmd (manifest_path w code n') dry' \<Longrightarrow> n = n'"
  by (simp add: apply_cmd_def manifest_path_str)

lemma apply_cmd_not_preflight [simp]:
  "apply_cmd fp dry \<noteq> version_cmd" "apply_cmd fp dry \<noteq> context_cmd"
  by (simp_all add: apply_cmd_def version_cmd_def context_cmd_def)

lemma subcommand_simps [simp]:
  "subcommand version_cmd = ''version''"
  "subcommand context_cmd = ''config''"
  "subcommand (apply_cmd fp dry) = ''apply''"
  "subcommand (wait_cmd l ns t) = ''wait''"
  "subcommand (get_namespace_cmd s) = ''get''"
  "subcommand delete_namespace_cmd = ''delete''"
  by (simp_all add: subcommand_def version_cmd_def context_cmd_def apply_cmd_def wait_cmd_def
      get_namespace_cmd_def delete_namespace_cmd_def)

lemma stack_files_monitoring:
  "stack_files ''monitoring'' =
     [''namespace.yaml'', ''prometheus-rbac.yaml'', ''prometheus-config.yaml'',
      ''prometheus-deployment.yaml'', ''prometheus-service.yaml'', ''grafana-deployment.yaml'',
      ''grafana-service.yaml'', ''monitoring-ingress.yaml'']"
  by (simp add: stack_files_def monitoring_registered)

lemma stack_files_monitoring_distinct: "distinct (stack_files ''monitoring'')"
  unfolding stack_files_monitoring by simp

lemma applies_ok_ok_world: "applies_ok ok_world dry t fps"
  by (induction fps arbitrary: t) (simp_all add: apply_error_def ok_world_def)

lemma preflight_ok_ok_world: "preflight_ok ok_world t"
  by (simp add: preflight_ok_def ok_world_def)

text \<open>What a deployment of the monitoring stack does when the first failing manifest is \<open>B\<close>.\<close>

lemma deploy_first_failure:
  assumes p: "preflight_ok w (trace st)"
    and s: "stack_files ''monitoring'' = A @ B # C"
    and a: "applies_ok w dry (trace st @ [version_cmd, context_cmd]) (map (manifest_path w ''monitoring'') A)"
    and e: "apply_error w dry
        (trace st @ [version_cmd, context_cmd] @ map (\<lambda>n. apply_cmd (manifest_path w ''monitoring'' n) dry) A)
        (manifest_path w ''monitoring'' B) = Some e"
  shows "fst (deploy w ''monitoring'' dry timeout verbose st) = Inl (Exit 1) \<and>
     trace (snd (deploy w ''monitoring'' dry timeout verbose st)) =
       trace st @ [version_cmd, context_cmd] @
       map (\<lambda>n. apply_cmd (manifest_path w ''monitoring'' n) dry) A @
       (if path_exists w
            (trace st @ [version_cmd, context_cmd] @ map (\<lambda>n. apply_cmd (manifest_path w ''monitoring'' n) dry) A)
            (manifest_path w ''monitoring'' B)
        then [apply_cmd (manifest_path w ''monitoring'' B) dry] else []) \<and>
     out_stream (snd (deploy w ''monitoring'' dry timeout verbose st)) =
       out_stream st @ map M_applying A @ [M_applying B, M_failed B e] \<and>
     (\<exists>es. err_stream (snd (deploy w ''monitoring'' dry timeout verbose st)) =
       es @ [LogRecord ERROR (M_apply_exception (manifest_path w ''monitoring'' B) e)])"
proof -
  let ?mp = "manifest_path w ''monitoring''"
  let ?ls = "loop_start w verbose st"
  have l: "trace ?ls = trace st @ [version_cmd, context_cmd]" using p by (rule loop_start_trace)
  have ps: "manifest_paths w ''monitoring'' = map ?mp A @ ?mp B # map ?mp C"
    by (simp add: manifest_paths_def s)
  have a': "applies_ok w dry (trace ?ls) (map ?mp A)" using a l by simp
  have e': "apply_error w dry (trace ?ls @ map (\<lambda>f. apply_cmd f dry) (map ?mp A)) (?mp B) = Some e"
    using e l by (simp add: comp_def)
  have k: "sink_level ?ls = Some (if verbose then 10 else 20)" by simp
  have le: "(if verbose then 10 else 20) \<le> (40::nat)" by simp
  from apply_files_fail [OF a' e' k le, of "map ?mp C"]
  have f: "fst (apply_files w dry (manifest_paths w ''monitoring'') ?ls) = Inl (Exit 1)"
    and rest: "trace (snd (apply_files w dry (manifest_paths w ''monitoring'') ?ls)) =
       trace st @ [version_cmd, context_cmd] @ map (\<lambda>n. apply_cmd (?mp n) dry) A @
       (if path_exists w (trace st @ [version_cmd, context_cmd] @ map (\<lambda>n. apply_cmd (?mp n) dry) A) (?mp B)
        then [apply_cmd (?mp B) dry] else [])"
      "out_stream (snd (apply_files w dry (manifest_paths w ''monitoring'') ?ls)) =
       out_stream st @ map M_applying A @ [M_applying B, M_failed B e]"
      "\<exists>es. err_stream (snd (apply_files w dry (manifest_paths w ''monitoring'') ?ls)) =
       es @ [LogRecord ERROR (M_apply_exception (?mp B) e)]"
    unfolding ps l by (simp_all add: comp_def)
  have d: "deploy w ''monitoring'' dry timeout verbose st =
      (Inl (Exit 1), snd (apply_files w dry (manifest_paths w ''monitoring'') ?ls))"
    unfolding deploy_monitoring [OF p] using f by (simp add: split_beta)
  show ?thesis unfolding d using rest by simp
qed

lemma logger_log_err_mono:
  "x \<in> set (err_stream st) \<Longrightarrow> x \<in> set (err_stream (logger_log l m st))"
  by (simp add: logger_log_def split: option.splits)

lemma run_cmd_stderr:
  "backend w (trace st) c = Exited rc err \<Longrightarrow>
     ChildStderr err \<in> set (err_stream (snd (run_cmd w c cwd chk st)))"
  by (simp add: run_cmd_def Let_def)

lemma apply_yaml_stderr:
  "path_exists w (trace st) fp \<Longrightarrow> backend w (trace st) (apply_cmd fp dry) = Exited rc err \<Longrightarrow>
     ChildStderr err \<in> set (err_stream (snd (apply_yaml w fp dry st)))"
  using run_cmd_stderr [of w st "apply_cmd fp dry" rc err None True]
  by (simp add: apply_yaml_def split_beta split: sum.splits)

lemma apply_files_rejected_stderr:
  assumes "applies_ok w dry (trace st) pre"
    and "path_exists w (trace st @ map (\<lambda>f. apply_cmd f dry) pre) b"
    and "backend w (trace st @ map (\<lambda>f. apply_cmd f dry) pre) (apply_cmd b dry) = Exited rc err"
    and "rc \<noteq> 0"
  shows "ChildStderr err \<in> set (err_stream (snd (apply_files w dry (pre @ b # post) st)))"
  using assms
proof (induction pre arbitrary: st)
  case Nil
  let ?s0 = "tqdm_write (M_applying (path_name b)) st"
  let ?r = "apply_yaml w b dry ?s0"
  from Nil have ae: "apply_error w dry (trace st) b = Some (CalledProcessError rc (apply_cmd b dry) None None)"
    by (simp add: apply_error_def)
  then have r1: "fst ?r = Inl (CalledProcessError rc (apply_cmd b dry) None None)"
    by (simp add: apply_yaml_fst)
  have m: "ChildStderr err \<in> set (err_stream (snd ?r))"
    using Nil apply_yaml_stderr [of w ?s0 b dry rc err] by simp
  have step: "snd (apply_files w dry (b # post) st) =
      logger_log ERROR (M_apply_exception b (CalledProcessError rc (apply_cmd b dry) None None))
        (tqdm_write (M_failed (path_name b) (CalledProcessError rc (apply_cmd b dry) None None)) (snd ?r))"
    using r1 by (simp add: split_beta)
  show ?case unfolding append_Nil step using m by (intro logger_log_err_mono) simp
next
  case (Cons fp fps)
  let ?st1 = "snd (apply_yaml w fp dry (tqdm_write (M_applying (path_name fp)) st))"
  from Cons.prems have ok: "apply_error w dry (trace st) fp = None"
    and rest: "applies_ok w dry (trace st @ [apply_cmd fp dry]) fps" by simp_all
  have ex: "path_exists w (trace st) fp" using ok by (rule apply_error_None_exists)
  have t1: "trace ?st1 = trace st @ [apply_cmd fp dry]" using ex by simp
  have r1: "fst (apply_yaml w fp dry (tqdm_write (M_applying (path_name fp)) st)) = Inr ()"
    using ok by (simp add: apply_yaml_fst)
  have step: "apply_files w dry ((fp # fps) @ b # post) st = apply_files w dry (fps @ b # post) ?st1"
    using r1 by (simp add: split_beta)
  have a1: "applies_ok w dry (trace ?st1) fps" using rest t1 by simp
  have a2: "path_exists w (trace ?st1 @ map (\<lambda>f. apply_cmd f dry) fps) b"
    using Cons.prems(2) t1 by simp
  have a3: "backend w (trace ?st1 @ map (\<lambda>f. apply_cmd f dry) fps) (apply_cmd b dry) = Exited rc err"
    using Cons.prems(3) t1 by simp
  from Cons.IH [OF a1 a2 a3 Cons.prems(4)] show ?case unfolding step .
qed

lemma deploy_failure_state:
  assumes p: "preflight_ok w (trace st)"
    and f: "fst (apply_files w dry (manifest_paths w ''monitoring'') (loop_start w verbose st)) = Inl e"
  shows "deploy w ''monitoring'' dry timeout verbose st =
      (Inl e, snd (apply_files w dry (manifest_paths w ''monitoring'') (loop_start w verbose st)))"
  unfolding deploy_monitoring [OF p] using f by (simp add: split_beta)

lemma deploy_dry_run_issued:
  "\<exists>fps. issued st (snd (deploy w stack True timeout verbose st)) = [version_cmd] \<or>
     issued st (snd (deploy w stack True timeout verbose st)) =
       [version_cmd, context_cmd] @ map (\<lambda>f. apply_cmd f True) fps"
proof (cases "preflight_ok w (trace st)")
  case False
  let ?st0 = "logger_add (if verbose then DEBUG else INFO) (logger_remove st)"
  have n0: "\<not> preflight_ok w (trace ?st0)" using False by simp
  have d: "deploy w stack True timeout verbose st = ensure_kubectl w ?st0"
    using False by (rule deploy_preflight_failed)
  from ensure_kubectl_fail [OF n0]
  have "issued st (snd (ensure_kubectl w ?st0)) = [version_cmd] \<or>
      issued st (snd (ensure_kubectl w ?st0)) = [version_cmd, context_cmd] @ map (\<lambda>f. apply_cmd f True) []"
    by (auto simp: issued_def)
  then show ?thesis unfolding d by blast
next
  case p: True
  show ?thesis
  proof (cases "stack = ''monitoring''")
    case False
    from deploy_unknown [OF p False, of True timeout verbose]
    have "issued st (snd (deploy w stack True timeout verbose st)) =
        [version_cmd, context_cmd] @ map (\<lambda>f. apply_cmd f True) []"
      by (simp add: issued_append)
    then show ?thesis by blast
  next
    case True
    let ?ls = "loop_start w verbose st"
    let ?af = "apply_files w True (manifest_paths w ''monitoring'') ?ls"
    have l: "trace ?ls = trace st @ [version_cmd, context_cmd]" using p by (rule loop_start_trace)
    have t: "trace (snd (deploy w ''monitoring'' True timeout verbose st)) = trace (snd ?af)"
      unfolding deploy_monitoring_result(2) [OF p] by (simp split: sum.splits)
    from apply_files_trace_prefix [of "manifest_paths w ''monitoring''" w True ?ls]
    obtain k where "trace (snd ?af) =
        trace ?ls @ map (\<lambda>f. apply_cmd f True) (take k (manifest_paths w ''monitoring''))" by blast
    then have "issued st (snd (deploy w ''monitoring'' True timeout verbose st)) =
        [version_cmd, context_cmd] @ map (\<lambda>f. apply_cmd f True) (take k (manifest_paths w ''monitoring''))"
      by (intro issued_append) (simp add: t l)
    then show ?thesis unfolding True by blast
  qed
qed


subsection \<open>The claims\<close>

text \<open>
  C4. \<^verbatim>\<open>apply_yaml\<close> on a path that does not exist raises \<^verbatim>\<open>FileNotFoundError\<close> for
  that path, whatever the dry-run flag, and starts no command: the backend is not invoked.
\<close>

theorem apply_yaml_missing_manifest:
  "\<not> path_exists w (trace st) file_path \<Longrightarrow>
     fst (apply_yaml w file_path dry_run st) = Inl (FileNotFoundError file_path) \<and>
     trace (snd (apply_yaml w file_path dry_run st)) = trace st \<and>
     issued st (snd (apply_yaml w file_path dry_run st)) = []"
  by (simp add: apply_yaml_def issued_def)

theorem apply_yaml_missing_manifest_witness:
  "\<not> path_exists no_files_world (trace init_state) [''/srv'', ''cli'', ''resource'', ''monitoring'', ''namespace.yaml''] \<and>
   fst (apply_yaml no_files_world [''/srv'', ''cli'', ''resource'', ''monitoring'', ''namespace.yaml''] True init_state) =
     Inl (FileNotFoundError [''/srv'', ''cli'', ''resource'', ''monitoring'', ''namespace.yaml'']) \<and>
   trace (snd (apply_yaml no_files_world [''/srv'', ''cli'', ''resource'', ''monitoring'', ''namespace.yaml'']
     True init_state)) = []"
  using apply_yaml_missing_manifest [of no_files_world init_state
      "[''/srv'', ''cli'', ''resource'', ''monitoring'', ''namespace.yaml'']" True]
  by (simp add: no_files_world_def ok_world_def init_state_def)

text \<open>
  C7. When the preflight checks pass and the namespace query exits with a non-zero code,
  \<^verbatim>\<open>delete\<close> ends with exit code 0, a WARNING record reaches the log (the sink is at
  DEBUG or INFO), and no delete command is among the commands it issued; this holds for
  every stack code.
\<close>

theorem delete_absent_namespace:
  assumes "preflight_ok w (trace st)"
    and "backend w (trace st @ [version_cmd, context_cmd]) (get_namespace_cmd stack) = Exited rc err"
    and "rc \<noteq> 0"
  shows "exit_code (fst (delete_stack w stack verbose st)) = 0 \<and>
     LogRecord WARNING (M_namespace_missing stack) \<in> set (err_stream (snd (delete_stack w stack verbose st))) \<and>
     (\<forall>c \<in> set (issued st (snd (delete_stack w stack verbose st))). subcommand c \<noteq> ''delete'')"
proof -
  let ?r = "delete_stack w stack verbose st"
  from delete_check_nonzero [OF assms, of verbose]
  have f: "fst ?r = Inl (Exit 0)"
    and t: "trace (snd ?r) = trace st @ [version_cmd, context_cmd, get_namespace_cmd stack]"
    and l: "\<exists>es. err_stream (snd ?r) = es @ [LogRecord WARNING (M_namespace_missing stack)]"
    by simp_all
  from l have m: "LogRecord WARNING (M_namespace_missing stack) \<in> set (err_stream (snd ?r))"
    by auto
  have i: "issued st (snd ?r) = [version_cmd, context_cmd, get_namespace_cmd stack]"
    using t by (rule issued_append)
  show ?thesis unfolding i using f m
    by (simp add: subcommand_def version_cmd_def context_cmd_def get_namespace_cmd_def)
qed

theorem delete_absent_namespace_witness:
  "preflight_ok absent_namespace_world (trace init_state) \<and>
   backend absent_namespace_world (trace init_state @ [version_cmd, context_cmd]) (get_namespace_cmd ''monitoring'') =
     Exited 1 ''Error from server (NotFound)'' \<and>
   exit_code (fst (delete_stack absent_namespace_world ''monitoring'' False init_state)) = 0 \<and>
   LogRecord WARNING (M_namespace_missing ''monitoring'') \<in>
     set (err_stream (snd (delete_stack absent_namespace_world ''monitoring'' False init_state)))"
proof -
  have p: "preflight_ok absent_namespace_world (trace init_state)"
    by (simp add: preflight_ok_def absent_namespace_world_def ok_world_def subcommand_def
        version_cmd_def context_cmd_def)
  have b: "backend absent_namespace_world (trace init_state @ [version_cmd, context_cmd])
      (get_namespace_cmd ''monitoring'') = Exited 1 ''Error from server (NotFound)''"
    by (simp add: absent_namespace_world_def ok_world_def subcommand_def get_namespace_cmd_def)
  have n: "(1::int) \<noteq> 0" by simp
  show ?thesis using p b delete_absent_namespace [OF p b n, of False] by simp
qed

text \<open>
  C5. Every invocation of \<^verbatim>\<open>deploy\<close> and of \<^verbatim>\<open>delete\<close> starts with the two preflight
  queries. When both exit with 0, everything else the invocation issues comes after them.
  When one of them fails, the invocation ends with the exception of that query (not a
  \<^verbatim>\<open>typer.Exit\<close>) and has issued the version query alone, or the version query and the
  context query: no manifest is applied and no namespace is deleted.
\<close>

theorem preflight_before_mutation:
  "(preflight_ok w (trace st) \<longrightarrow>
      prefix (trace st @ [version_cmd, context_cmd]) (trace (snd (deploy w stack dry_run timeout verbose st))) \<and>
      prefix (trace st @ [version_cmd, context_cmd]) (trace (snd (delete_stack w stack verbose st)))) \<and>
   (\<not> preflight_ok w (trace st) \<longrightarrow>
      (\<exists>e. fst (deploy w stack dry_run timeout verbose st) = Inl e \<and>
           fst (delete_stack w stack verbose st) = Inl e \<and> (\<forall>c. e \<noteq> Exit c)) \<and>
      issued st (snd (delete_stack w stack verbose st)) =
        issued st (snd (deploy w stack dry_run timeout verbose st)) \<and>
      (issued st (snd (deploy w stack dry_run timeout verbose st)) = [version_cmd] \<or>
       issued st (snd (deploy w stack dry_run timeout verbose st)) = [version_cmd, context_cmd]))"
proof (intro conjI impI)
  assume p: "preflight_ok w (trace st)"
  show "prefix (trace st @ [version_cmd, context_cmd]) (trace (snd (deploy w stack dry_run timeout verbose st)))"
    using p by (rule deploy_extends_preflight)
  show "prefix (trace st @ [version_cmd, context_cmd]) (trace (snd (delete_stack w stack verbose st)))"
    using p by (rule delete_extends_preflight)
next
  assume n: "\<not> preflight_ok w (trace st)"
  let ?st0 = "logger_add (if verbose then DEBUG else INFO) (logger_remove st)"
  have n0: "\<not> preflight_ok w (trace ?st0)" using n by simp
  have d: "deploy w stack dry_run timeout verbose st = ensure_kubectl w ?st0"
    using n by (rule deploy_preflight_failed)
  have r: "delete_stack w stack verbose st = ensure_kubectl w ?st0"
    using n by (rule delete_preflight_failed)
  from ensure_kubectl_fail [OF n0]
  show "\<exists>e. fst (deploy w stack dry_run timeout verbose st) = Inl e \<and>
      fst (delete_stack w stack verbose st) = Inl e \<and> (\<forall>c. e \<noteq> Exit c)"
    unfolding d r by blast
  show "issued st (snd (delete_stack w stack verbose st)) =
      issued st (snd (deploy w stack dry_run timeout verbose st))"
    unfolding d r by simp
  from ensure_kubectl_fail [OF n0]
  show "issued st (snd (deploy w stack dry_run timeout verbose st)) = [version_cmd] \<or>
      issued st (snd (deploy w stack dry_run timeout verbose st)) = [version_cmd, context_cmd]"
    unfolding d by (auto simp: issued_def)
qed

theorem preflight_before_mutation_witness:
  "preflight_ok ok_world (trace init_state) \<and>
   prefix [version_cmd, context_cmd] (trace (snd (deploy ok_world ''monitoring'' False ''300s'' False init_state))) \<and>
   prefix [version_cmd, context_cmd] (trace (snd (delete_stack ok_world ''monitoring'' False init_state))) \<and>
   \<not> preflight_ok no_kubectl_world (trace init_state) \<and>
   issued init_state (snd (delete_stack no_kubectl_world ''monitoring'' False init_state)) =
     issued init_state (snd (deploy no_kubectl_world ''monitoring'' False ''300s'' False init_state)) \<and>
   (issued init_state (snd (deploy no_kubectl_world ''monitoring'' False ''300s'' False init_state)) = [version_cmd] \<or>
    issued init_state (snd (deploy no_kubectl_world ''monitoring'' False ''300s'' False init_state)) =
      [version_cmd, context_cmd])"
proof -
  have p: "preflight_ok ok_world (trace init_state)"
    by (simp add: preflight_ok_def ok_world_def)
  have n: "\<not> preflight_ok no_kubectl_world (trace init_state)"
    by (simp add: preflight_ok_def no_kubectl_world_def ok_world_def)
  have t: "trace init_state = []" by (simp add: init_state_def)
  show ?thesis
    using p n
      preflight_before_mutation [of ok_world init_state "''monitoring''" False "''300s''" False]
      preflight_before_mutation [of no_kubectl_world init_state "''monitoring''" False "''300s''" False]
    unfolding t by simp
qed

text \<open>
  C10. After a passed preflight, \<^verbatim>\<open>delete\<close> looks at nothing but the return code of the
  namespace query: it ends with \<^verbatim>\<open>typer.Exit(0)\<close> exactly when that code is not 0, for
  every stack code and whatever the backend wrote to its standard error (a missing
  namespace and an unreachable cluster are not told apart). In that case the query is the
  last command issued and the warning that the namespace does not exist is logged.
\<close>

theorem delete_nonzero_check_is_absent:
  assumes "preflight_ok w (trace st)"
    and "backend w (trace st @ [version_cmd, context_cmd]) (get_namespace_cmd stack) = Exited rc err"
  shows "(fst (delete_stack w stack verbose st) = Inl (Exit 0)) = (rc \<noteq> 0) \<and>
     (rc \<noteq> 0 \<longrightarrow>
        issued st (snd (delete_stack w stack verbose st)) =
          [version_cmd, context_cmd, get_namespace_cmd stack] \<and>
        (\<exists>es. err_stream (snd (delete_stack w stack verbose st)) =
          es @ [LogRecord WARNING (M_namespace_missing stack)]))"
proof (cases "rc = 0")
  case False
  from delete_check_nonzero [OF assms False, of verbose] False show ?thesis
    by (simp add: issued_append)
next
  case True
  show ?thesis
  proof (cases "stack = ''monitoring''")
    case False
    from delete_check_zero_unknown [OF assms(1) assms(2) [unfolded True] False, of verbose] True
    show ?thesis by simp
  next
    case m: True
    from delete_check_zero_monitoring [OF assms(1) assms(2) [unfolded True m], of verbose] True
    show ?thesis unfolding m
      by (simp split: proc_outcome.splits)
  qed
qed

theorem delete_nonzero_check_is_absent_witness:
  "preflight_ok unreachable_cluster_world (trace init_state) \<and>
   backend unreachable_cluster_world (trace init_state @ [version_cmd, context_cmd]) (get_namespace_cmd ''monitoring'') =
     Exited 1 ''The connection to the server was refused'' \<and>
   fst (delete_stack unreachable_cluster_world ''monitoring'' False init_state) = Inl (Exit 0) \<and>
   issued init_state (snd (delete_stack unreachable_cluster_world ''monitoring'' False init_state)) =
     [version_cmd, context_cmd, get_namespace_cmd ''monitoring'']"
proof -
  have p: "preflight_ok unreachable_cluster_world (trace init_state)"
    by (simp add: preflight_ok_def unreachable_cluster_world_def ok_world_def subcommand_def
        version_cmd_def context_cmd_def)
  have b: "backend unreachable_cluster_world (trace init_state @ [version_cmd, context_cmd])
      (get_namespace_cmd ''monitoring'') = Exited 1 ''The connection to the server was refused''"
    by (simp add: unreachable_cluster_world_def ok_world_def subcommand_def get_namespace_cmd_def)
  show ?thesis using p b delete_nonzero_check_is_absent [OF p b, of False] by simp
qed

text \<open>
  C2, as stated, fails: for the unrecognised code \<^verbatim>\<open>foo\<close>, with a passing preflight and a
  namespace query that exits with 1, \<^verbatim>\<open>delete\<close> ends with exit code 0, not 2.
\<close>

theorem unknown_stack_delete_counterexample:
  "''foo'' \<noteq> ''monitoring'' \<and> map_of SUPPORT_STACKS ''foo'' = None \<and>
   preflight_ok absent_namespace_world (trace init_state) \<and>
   fst (delete_stack absent_namespace_world ''foo'' False init_state) = Inl (Exit 0) \<and>
   exit_code (fst (delete_stack absent_namespace_world ''foo'' False init_state)) \<noteq> 2"
proof -
  have p: "preflight_ok absent_namespace_world (trace init_state)"
    by (simp add: preflight_ok_def absent_namespace_world_def ok_world_def subcommand_def
        version_cmd_def context_cmd_def)
  have b: "backend absent_namespace_world (trace init_state @ [version_cmd, context_cmd])
      (get_namespace_cmd ''foo'') = Exited 1 ''Error from server (NotFound)''"
    by (simp add: absent_namespace_world_def ok_world_def subcommand_def get_namespace_cmd_def)
  have n: "(1::int) \<noteq> 0" by simp
  from delete_check_nonzero [OF p b n, of False]
  have "fst (delete_stack absent_namespace_world ''foo'' False init_state) = Inl (Exit 0)" by simp
  then show ?thesis using p by (simp add: SUPPORT_STACKS_def)
qed

text \<open>
  C2, amended. For every stack code other than \<^verbatim>\<open>monitoring\<close>: \<^verbatim>\<open>deploy\<close> issues at most
  the two preflight queries and \<^verbatim>\<open>delete\<close> at most those and the namespace query, in that
  order (so neither applies, waits or deletes). When the preflight passes, \<^verbatim>\<open>deploy\<close>
  ends with \<^verbatim>\<open>typer.Exit(2)\<close>; \<^verbatim>\<open>delete\<close> ends with \<^verbatim>\<open>typer.Exit(2)\<close> when the namespace
  query exits with 0 and with \<^verbatim>\<open>typer.Exit(0)\<close> when it exits with any other code.
\<close>

theorem unknown_stack_exits:
  assumes u: "stack \<noteq> ''monitoring''"
  shows "prefix (issued st (snd (deploy w stack dry_run timeout verbose st))) [version_cmd, context_cmd] \<and>
     prefix (issued st (snd (delete_stack w stack verbose st)))
       [version_cmd, context_cmd, get_namespace_cmd stack] \<and>
     (preflight_ok w (trace st) \<longrightarrow>
        fst (deploy w stack dry_run timeout verbose st) = Inl (Exit 2) \<and>
        issued st (snd (deploy w stack dry_run timeout verbose st)) = [version_cmd, context_cmd] \<and>
        (\<forall>rc err. backend w (trace st @ [version_cmd, context_cmd]) (get_namespace_cmd stack) = Exited rc err \<longrightarrow>
           fst (delete_stack w stack verbose st) = Inl (Exit (if rc = 0 then 2 else 0)) \<and>
           issued st (snd (delete_stack w stack verbose st)) =
             [version_cmd, context_cmd, get_namespace_cmd stack]))"
proof (cases "preflight_ok w (trace st)")
  case False
  let ?st0 = "logger_add (if verbose then DEBUG else INFO) (logger_remove st)"
  have n0: "\<not> preflight_ok w (trace ?st0)" using False by simp
  have d: "deploy w stack dry_run timeout verbose st = ensure_kubectl w ?st0"
    using False by (rule deploy_preflight_failed)
  have r: "delete_stack w stack verbose st = ensure_kubectl w ?st0"
    using False by (rule delete_preflight_failed)
  from ensure_kubectl_fail [OF n0]
  have "issued st (snd (ensure_kubectl w ?st0)) = [version_cmd] \<or>
      issued st (snd (ensure_kubectl w ?st0)) = [version_cmd, context_cmd]"
    by (auto simp: issued_def)
  then show ?thesis unfolding d r using False by auto
next
  case p: True
  have d: "fst (deploy w stack dry_run timeout verbose st) = Inl (Exit 2)"
    and di: "issued st (snd (deploy w stack dry_run timeout verbose st)) = [version_cmd, context_cmd]"
    using deploy_unknown [OF p u, of dry_run timeout verbose] by (simp_all add: issued_append)
  have x: "issued st (snd (delete_stack w stack verbose st)) =
      [version_cmd, context_cmd, get_namespace_cmd stack]"
  proof (cases "backend w (trace st @ [version_cmd, context_cmd]) (get_namespace_cmd stack)")
    case (LaunchFailed s)
    from delete_check_launch_failed [OF p LaunchFailed, of verbose] show ?thesis
      by (simp add: issued_append)
  next
    case (Exited rc err)
    show ?thesis
    proof (cases "rc = 0")
      case False
      from delete_check_nonzero [OF p Exited False, of verbose] show ?thesis
        by (simp add: issued_append)
    next
      case True
      from delete_check_zero_unknown [OF p Exited [unfolded True] u, of verbose] show ?thesis
        by (simp add: issued_append)
    qed
  qed
  have y: "fst (delete_stack w stack verbose st) = Inl (Exit (if rc = 0 then 2 else 0))"
    if "backend w (trace st @ [version_cmd, context_cmd]) (get_namespace_cmd stack) = Exited rc err"
    for rc err
  proof (cases "rc = 0")
    case False
    from delete_check_nonzero [OF p that False, of verbose] False show ?thesis by simp
  next
    case True
    from delete_check_zero_unknown [OF p that [unfolded True] u, of verbose] True show ?thesis by simp
  qed
  show ?thesis using d di x y by simp
qed

theorem unknown_stack_exits_witness:
  "''foo'' \<noteq> ''monitoring'' \<and> preflight_ok ok_world (trace init_state) \<and>
   backend ok_world (trace init_state @ [version_cmd, context_cmd]) (get_namespace_cmd ''foo'') = Exited 0 [] \<and>
   fst (deploy ok_world ''foo'' False ''300s'' False init_state) = Inl (Exit 2) \<and>
   issued init_state (snd (deploy ok_world ''foo'' False ''300s'' False init_state)) = [version_cmd, context_cmd] \<and>
   fst (delete_stack ok_world ''foo'' False init_state) = Inl (Exit 2) \<and>
   issued init_state (snd (delete_stack ok_world ''foo'' False init_state)) =
     [version_cmd, context_cmd, get_namespace_cmd ''foo'']"
proof -
  have u: "''foo'' \<noteq> ''monitoring''" by simp
  have p: "preflight_ok ok_world (trace init_state)"
    by (simp add: preflight_ok_def ok_world_def)
  have b: "backend ok_world (trace init_state @ [version_cmd, context_cmd]) (get_namespace_cmd ''foo'') =
      Exited 0 []"
    by (simp add: ok_world_def)
  show ?thesis
    using p b unknown_stack_exits [OF u, of init_state ok_world False "''300s''" False] by simp
qed



text \<open>
  C3. Let the registry's list for the monitoring stack be \<open>A @ B # C\<close>, let the manifests
  of \<open>A\<close> be applied successfully and let the apply of \<open>B\<close> raise \<open>e\<close> (the file is
  missing, kubectl cannot be started, or it exits with a non-zero code). Then \<^verbatim>\<open>deploy\<close>
  ends with \<^verbatim>\<open>typer.Exit(1)\<close>, which is not the unknown-stack code 2; it has issued the
  preflight queries, the applies of \<open>A\<close> in order and at most the apply of \<open>B\<close>; no
  manifest of \<open>C\<close> is applied; nothing is deleted, so what \<open>A\<close> created stays; and the
  failure is written with the file name \<open>B\<close> and the exception \<open>e\<close>, on standard output
  and as an ERROR record with the path of \<open>B\<close>.
\<close>

theorem apply_stops_at_first_failure:
  assumes p: "preflight_ok w (trace st)"
    and s: "stack_files ''monitoring'' = A @ B # C"
    and a: "applies_ok w dry_run (trace st @ [version_cmd, context_cmd]) (map (manifest_path w ''monitoring'') A)"
    and e: "apply_error w dry_run
        (trace st @ [version_cmd, context_cmd] @ map (\<lambda>n. apply_cmd (manifest_path w ''monitoring'' n) dry_run) A)
        (manifest_path w ''monitoring'' B) = Some e"
  shows "fst (deploy w ''monitoring'' dry_run timeout verbose st) = Inl (Exit 1) \<and>
     exit_code (fst (deploy w ''monitoring'' dry_run timeout verbose st)) = 1 \<and>
     exit_code (fst (deploy w ''monitoring'' dry_run timeout verbose st)) \<noteq> 2 \<and>
     issued st (snd (deploy w ''monitoring'' dry_run timeout verbose st)) =
       [version_cmd, context_cmd] @
       map (\<lambda>n. apply_cmd (manifest_path w ''monitoring'' n) dry_run) A @
       (if path_exists w
            (trace st @ [version_cmd, context_cmd] @
             map (\<lambda>n. apply_cmd (manifest_path w ''monitoring'' n) dry_run) A)
            (manifest_path w ''monitoring'' B)
        then [apply_cmd (manifest_path w ''monitoring'' B) dry_run] else []) \<and>
     (\<forall>n \<in> set C. apply_cmd (manifest_path w ''monitoring'' n) dry_run \<notin>
        set (issued st (snd (deploy w ''monitoring'' dry_run timeout verbose st)))) \<and>
     (\<forall>c \<in> set (issued st (snd (deploy w ''monitoring'' dry_run timeout verbose st))).
        subcommand c \<noteq> ''delete'') \<and>
     out_stream (snd (deploy w ''monitoring'' dry_run timeout verbose st)) =
       out_stream st @ map M_applying A @ [M_applying B, M_failed B e] \<and>
     (\<exists>es. err_stream (snd (deploy w ''monitoring'' dry_run timeout verbose st)) =
       es @ [LogRecord ERROR (M_apply_exception (manifest_path w ''monitoring'' B) e)])"
proof -
  let ?r = "deploy w ''monitoring'' dry_run timeout verbose st"
  let ?mp = "manifest_path w ''monitoring''"
  let ?tB = "trace st @ [version_cmd, context_cmd] @ map (\<lambda>n. apply_cmd (?mp n) dry_run) A"
  let ?cs = "[version_cmd, context_cmd] @ map (\<lambda>n. apply_cmd (?mp n) dry_run) A @
       (if path_exists w ?tB (?mp B) then [apply_cmd (?mp B) dry_run] else [])"
  from deploy_first_failure [OF p s a e, of timeout verbose]
  have f: "fst ?r = Inl (Exit 1)"
    and t: "trace (snd ?r) = trace st @ ?cs"
    and o: "out_stream (snd ?r) = out_stream st @ map M_applying A @ [M_applying B, M_failed B e]"
    and l: "\<exists>es. err_stream (snd ?r) = es @ [LogRecord ERROR (M_apply_exception (?mp B) e)]"
    by simp_all
  have i: "issued st (snd ?r) = ?cs" using t by (rule issued_append)
  from stack_files_monitoring_distinct have dis: "distinct (A @ B # C)" unfolding s .
  have c: "apply_cmd (?mp n) dry_run \<notin> set ?cs" if n: "n \<in> set C" for n
  proof
    assume "apply_cmd (?mp n) dry_run \<in> set ?cs"
    then have "apply_cmd (?mp n) dry_run \<in> (\<lambda>n. apply_cmd (?mp n) dry_run) ` set A \<or>
        apply_cmd (?mp n) dry_run = apply_cmd (?mp B) dry_run"
      by (auto split: if_splits)
    then have "n \<in> set A \<or> n = B" by (auto dest: apply_cmd_manifest_inj)
    with n dis show False by auto
  qed
  have nd: "\<forall>c \<in> set ?cs. subcommand c \<noteq> ''delete''" by auto
  show ?thesis unfolding i using f o l c nd by simp
qed

theorem apply_stops_at_first_failure_witness:
  "preflight_ok rejecting_world (trace init_state) \<and>
   stack_files ''monitoring'' = [''namespace.yaml''] @ ''prometheus-rbac.yaml'' #
     [''prometheus-config.yaml'', ''prometheus-deployment.yaml'', ''prometheus-service.yaml'',
      ''grafana-deployment.yaml'', ''grafana-service.yaml'', ''monitoring-ingress.yaml''] \<and>
   fst (deploy rejecting_world ''monitoring'' False ''300s'' False init_state) = Inl (Exit 1) \<and>
   issued init_state (snd (deploy rejecting_world ''monitoring'' False ''300s'' False init_state)) =
     [[''kubectl'', ''version'', ''--client''],
      [''kubectl'', ''config'', ''current-context''],
      [''kubectl'', ''apply'', ''-f'', ''/srv/cli/resource/monitoring/namespace.yaml''],
      [''kubectl'', ''apply'', ''-f'', ''/srv/cli/resource/monitoring/prometheus-rbac.yaml'']] \<and>
   out_stream (snd (deploy rejecting_world ''monitoring'' False ''300s'' False init_state)) =
     [M_applying ''namespace.yaml'', M_applying ''prometheus-rbac.yaml'',
      M_failed ''prometheus-rbac.yaml''
        (CalledProcessError 1
          [''kubectl'', ''apply'', ''-f'', ''/srv/cli/resource/monitoring/prometheus-rbac.yaml''] None None)]"
proof -
  have p: "preflight_ok rejecting_world (trace init_state)"
    by (simp add: preflight_ok_def rejecting_world_def ok_world_def version_cmd_def context_cmd_def)
  have s: "stack_files ''monitoring'' = [''namespace.yaml''] @ ''prometheus-rbac.yaml'' #
     [''prometheus-config.yaml'', ''prometheus-deployment.yaml'', ''prometheus-service.yaml'',
      ''grafana-deployment.yaml'', ''grafana-service.yaml'', ''monitoring-ingress.yaml'']"
    by (simp add: stack_files_monitoring)
  have m1: "apply_cmd (manifest_path rejecting_world ''monitoring'' ''namespace.yaml'') False =
      [''kubectl'', ''apply'', ''-f'', ''/srv/cli/resource/monitoring/namespace.yaml'']"
    by (simp add: apply_cmd_def manifest_path_def joinpath_def resource_dir_for_def
        rejecting_world_def ok_world_def)
  have m2: "apply_cmd (manifest_path rejecting_world ''monitoring'' ''prometheus-rbac.yaml'') False =
      [''kubectl'', ''apply'', ''-f'', ''/srv/cli/resource/monitoring/prometheus-rbac.yaml'']"
    by (simp add: apply_cmd_def manifest_path_def joinpath_def resource_dir_for_def
        rejecting_world_def ok_world_def)
  have x: "\<And>t f. path_exists rejecting_world t f" by (simp add: rejecting_world_def ok_world_def)
  have b1: "\<And>t. backend rejecting_world t
      [''kubectl'', ''apply'', ''-f'', ''/srv/cli/resource/monitoring/namespace.yaml''] = Exited 0 []"
    by (simp add: rejecting_world_def ok_world_def)
  have b2: "\<And>t. backend rejecting_world t
      [''kubectl'', ''apply'', ''-f'', ''/srv/cli/resource/monitoring/prometheus-rbac.yaml''] =
      Exited 1 ''Error from server (Forbidden)''"
    by (simp add: rejecting_world_def ok_world_def)
  have a: "applies_ok rejecting_world False (trace init_state @ [version_cmd, context_cmd])
      (map (manifest_path rejecting_world ''monitoring'') [''namespace.yaml''])"
    by (simp add: apply_error_def x b1 m1)
  have e: "apply_error rejecting_world False
      (trace init_state @ [version_cmd, context_cmd] @
       map (\<lambda>n. apply_cmd (manifest_path rejecting_world ''monitoring'' n) False) [''namespace.yaml''])
      (manifest_path rejecting_world ''monitoring'' ''prometheus-rbac.yaml'') =
      Some (CalledProcessError 1
        [''kubectl'', ''apply'', ''-f'', ''/srv/cli/resource/monitoring/prometheus-rbac.yaml''] None None)"
    by (simp add: apply_error_def x b2 m2)
  have o: "out_stream init_state = []" by (simp add: init_state_def)
  show ?thesis
    using p s apply_stops_at_first_failure [OF p s a e, of "''300s''" False]
    by (simp add: x o m1 m2 version_cmd_def context_cmd_def)
qed

text \<open>
  C8. For every stack code, dry-run flag, timeout and starting state, \<^verbatim>\<open>deploy\<close> with and
  without \<^verbatim>\<open>--verbose\<close> ends the same way and issues the same commands in the same order;
  so does \<^verbatim>\<open>delete\<close>. The flag only sets the threshold of the logger's sink.
\<close>

theorem verbose_changes_logging_only:
  "fst (deploy w stack dry_run timeout True st) = fst (deploy w stack dry_run timeout False st) \<and>
   trace (snd (deploy w stack dry_run timeout True st)) = trace (snd (deploy w stack dry_run timeout False st)) \<and>
   fst (delete_stack w stack True st) = fst (delete_stack w stack False st) \<and>
   trace (snd (delete_stack w stack True st)) = trace (snd (delete_stack w stack False st)) \<and>
   exit_code (fst (deploy w stack dry_run timeout True st)) =
     exit_code (fst (deploy w stack dry_run timeout False st)) \<and>
   exit_code (fst (delete_stack w stack True st)) = exit_code (fst (delete_stack w stack False st))"
proof -
  let ?a = "logger_add (if True then DEBUG else INFO) (logger_remove st)"
  let ?b = "logger_add (if False then DEBUG else INFO) (logger_remove st)"
  have tab: "trace ?a = trace ?b" by simp
  note ek = ensure_kubectl_trace_only [OF tab, of w]
  have dep: "fst (deploy w stack dry_run timeout True st) = fst (deploy w stack dry_run timeout False st) \<and>
      trace (snd (deploy w stack dry_run timeout True st)) = trace (snd (deploy w stack dry_run timeout False st))"
  proof (cases "preflight_ok w (trace st)")
    case False
    then show ?thesis using ek by (simp add: deploy_preflight_failed)
  next
    case p: True
    show ?thesis
    proof (cases "stack = ''monitoring''")
      case False
      from deploy_unknown [OF p False, of dry_run timeout True]
        deploy_unknown [OF p False, of dry_run timeout False]
      show ?thesis by simp
    next
      case True
      let ?la = "loop_start w True st" and ?lb = "loop_start w False st"
      let ?ps = "manifest_paths w ''monitoring''"
      have tl: "trace ?la = trace ?lb" using p by (simp add: loop_start_trace)
      from apply_files_trace_only [OF tl, of w dry_run ?ps]
      have af1: "fst (apply_files w dry_run ?ps ?la) = fst (apply_files w dry_run ?ps ?lb)"
        and af2: "trace (snd (apply_files w dry_run ?ps ?la)) = trace (snd (apply_files w dry_run ?ps ?lb))"
        by simp_all
      from wait_ready_trace_only [OF af2, of w timeout]
      have wr1: "fst (wait_ready w timeout (snd (apply_files w dry_run ?ps ?la))) =
          fst (wait_ready w timeout (snd (apply_files w dry_run ?ps ?lb)))"
        and wr2: "trace (snd (wait_ready w timeout (snd (apply_files w dry_run ?ps ?la)))) =
          trace (snd (wait_ready w timeout (snd (apply_files w dry_run ?ps ?lb))))"
        by simp_all
      show ?thesis unfolding True deploy_monitoring_result [OF p] af1 af2 wr1 wr2 by simp
    qed
  qed
  have del: "fst (delete_stack w stack True st) = fst (delete_stack w stack False st) \<and>
      trace (snd (delete_stack w stack True st)) = trace (snd (delete_stack w stack False st))"
  proof (cases "preflight_ok w (trace st)")
    case False
    then show ?thesis using ek by (simp add: delete_preflight_failed)
  next
    case p: True
    show ?thesis
    proof (cases "backend w (trace st @ [version_cmd, context_cmd]) (get_namespace_cmd stack)")
      case (LaunchFailed s)
      from delete_check_launch_failed [OF p LaunchFailed, of True]
        delete_check_launch_failed [OF p LaunchFailed, of False]
      show ?thesis by simp
    next
      case (Exited rc err)
      show ?thesis
      proof (cases "rc = 0")
        case False
        from delete_check_nonzero [OF p Exited False, of True]
          delete_check_nonzero [OF p Exited False, of False]
        show ?thesis by simp
      next
        case z: True
        show ?thesis
        proof (cases "stack = ''monitoring''")
          case False
          from delete_check_zero_unknown [OF p Exited [unfolded z] False, of True]
            delete_check_zero_unknown [OF p Exited [unfolded z] False, of False]
          show ?thesis by simp
        next
          case m: True
          from delete_check_zero_monitoring [OF p Exited [unfolded z m], of True]
            delete_check_zero_monitoring [OF p Exited [unfolded z m], of False]
          show ?thesis unfolding m by simp
        qed
      qed
    qed
  qed
  from dep del show ?thesis by simp
qed

text \<open>
  C1, as stated, fails: \<^verbatim>\<open>elk\<close> is registered in \<^verbatim>\<open>SUPPORT_STACKS\<close> with an empty manifest
  list, the preflight passes and nothing is malformed, yet a dry-run \<^verbatim>\<open>deploy\<close> of it ends
  with exit code 2, not 0.
\<close>

theorem registered_stack_dry_run_counterexample:
  "map_of SUPPORT_STACKS ''elk'' \<noteq> None \<and>
   preflight_ok ok_world (trace init_state) \<and>
   applies_ok ok_world True (trace init_state @ [version_cmd, context_cmd]) (manifest_paths ok_world ''elk'') \<and>
   fst (deploy ok_world ''elk'' True ''300s'' False init_state) = Inl (Exit 2) \<and>
   exit_code (fst (deploy ok_world ''elk'' True ''300s'' False init_state)) \<noteq> 0"
proof -
  have p: "preflight_ok ok_world (trace init_state)" by (rule preflight_ok_ok_world)
  have u: "''elk'' \<noteq> ''monitoring''" by simp
  from deploy_unknown [OF p u, of True "''300s''" False]
  have "fst (deploy ok_world ''elk'' True ''300s'' False init_state) = Inl (Exit 2)" by simp
  then show ?thesis using p by (simp add: SUPPORT_STACKS_def applies_ok_ok_world)
qed

text \<open>
  C1, amended. A dry-run \<^verbatim>\<open>deploy\<close> of any stack code, in any surroundings, issues no wait
  and no delete, and every apply it issues is a dry-run apply ending in
  \<^verbatim>\<open>--dry-run=server\<close>. For \<^verbatim>\<open>monitoring\<close>, the only code \<^verbatim>\<open>deploy\<close> handles, it returns
  normally (exit code 0) after applying every manifest in registry order, whenever the
  preflight passes and every manifest exists and is accepted. For the registered codes
  \<^verbatim>\<open>elk\<close> and \<^verbatim>\<open>hadoop\<close> it issues the preflight queries only and, when they pass, ends
  with the unknown-stack code 2.
\<close>

theorem dry_run_deploy:
  "(\<forall>c \<in> set (issued st (snd (deploy w stack True timeout verbose st))).
      subcommand c \<noteq> ''wait'' \<and> subcommand c \<noteq> ''delete'' \<and>
      (subcommand c = ''apply'' \<longrightarrow> (\<exists>fp. c = apply_cmd fp True) \<and> last c = ''--dry-run=server'')) \<and>
   (preflight_ok w (trace st) \<and>
    applies_ok w True (trace st @ [version_cmd, context_cmd]) (manifest_paths w ''monitoring'') \<longrightarrow>
      fst (deploy w ''monitoring'' True timeout verbose st) = Inr () \<and>
      exit_code (fst (deploy w ''monitoring'' True timeout verbose st)) = 0 \<and>
      issued st (snd (deploy w ''monitoring'' True timeout verbose st)) =
        [version_cmd, context_cmd] @ map (\<lambda>f. apply_cmd f True) (manifest_paths w ''monitoring'')) \<and>
   (preflight_ok w (trace st) \<and> stack \<in> {''elk'', ''hadoop''} \<longrightarrow>
      fst (deploy w stack True timeout verbose st) = Inl (Exit 2) \<and>
      issued st (snd (deploy w stack True timeout verbose st)) = [version_cmd, context_cmd])"
proof (intro conjI impI ballI)
  fix c
  assume c: "c \<in> set (issued st (snd (deploy w stack True timeout verbose st)))"
  from deploy_dry_run_issued [of st w stack timeout verbose] c
  have "c = version_cmd \<or> c = context_cmd \<or> (\<exists>fp. c = apply_cmd fp True)" by auto
  then have k: "subcommand c = ''version'' \<or> subcommand c = ''config'' \<or> (\<exists>fp. c = apply_cmd fp True)"
    by auto
  from k show "subcommand c \<noteq> ''wait''" by auto
  from k show "subcommand c \<noteq> ''delete''" by auto
  assume "subcommand c = ''apply''"
  with k obtain fp where fp: "c = apply_cmd fp True" by auto
  then show "\<exists>fp. c = apply_cmd fp True" by blast
  from fp show "last c = ''--dry-run=server''" by (simp add: apply_cmd_def)
next
  assume h: "preflight_ok w (trace st) \<and>
    applies_ok w True (trace st @ [version_cmd, context_cmd]) (manifest_paths w ''monitoring'')"
  then have p: "preflight_ok w (trace st)" by simp
  let ?ls = "loop_start w verbose st"
  let ?ps = "manifest_paths w ''monitoring''"
  have l: "trace ?ls = trace st @ [version_cmd, context_cmd]" using p by (rule loop_start_trace)
  have a': "applies_ok w True (trace ?ls) ?ps" using h l by simp
  from apply_files_ok [OF a']
  have f: "fst (apply_files w True ?ps ?ls) = Inr ()"
    and t: "trace (snd (apply_files w True ?ps ?ls)) =
      trace st @ [version_cmd, context_cmd] @ map (\<lambda>f. apply_cmd f True) ?ps"
    using l by simp_all
  show r: "fst (deploy w ''monitoring'' True timeout verbose st) = Inr ()"
    unfolding deploy_monitoring_result(1) [OF p] using f by simp
  then show "exit_code (fst (deploy w ''monitoring'' True timeout verbose st)) = 0" by simp
  have "trace (snd (deploy w ''monitoring'' True timeout verbose st)) =
      trace st @ [version_cmd, context_cmd] @ map (\<lambda>f. apply_cmd f True) ?ps"
    unfolding deploy_monitoring_result(2) [OF p] using f t by simp
  then show "issued st (snd (deploy w ''monitoring'' True timeout verbose st)) =
      [version_cmd, context_cmd] @ map (\<lambda>f. apply_cmd f True) ?ps"
    by (rule issued_append)
next
  assume h: "preflight_ok w (trace st) \<and> stack \<in> {''elk'', ''hadoop''}"
  then have p: "preflight_ok w (trace st)" and u: "stack \<noteq> ''monitoring''" by auto
  from deploy_unknown [OF p u, of True timeout verbose]
  show "fst (deploy w stack True timeout verbose st) = Inl (Exit 2)" by simp
  from deploy_unknown [OF p u, of True timeout verbose]
  show "issued st (snd (deploy w stack True timeout verbose st)) = [version_cmd, context_cmd]"
    by (simp add: issued_append)
qed

theorem dry_run_deploy_witness:
  "preflight_ok ok_world (trace init_state) \<and>
   applies_ok ok_world True (trace init_state @ [version_cmd, context_cmd]) (manifest_paths ok_world ''monitoring'') \<and>
   fst (deploy ok_world ''monitoring'' True ''300s'' False init_state) = Inr () \<and>
   issued init_state (snd (deploy ok_world ''monitoring'' True ''300s'' False init_state)) =
     [version_cmd, context_cmd] @ map (\<lambda>f. apply_cmd f True) (manifest_paths ok_world ''monitoring'') \<and>
   ''hadoop'' \<in> {''elk'', ''hadoop''} \<and>
   fst (deploy ok_world ''hadoop'' True ''300s'' False init_state) = Inl (Exit 2)"
proof -
  have p: "preflight_ok ok_world (trace init_state)" by (rule preflight_ok_ok_world)
  have a: "applies_ok ok_world True (trace init_state @ [version_cmd, context_cmd])
      (manifest_paths ok_world ''monitoring'')" by (rule applies_ok_ok_world)
  show ?thesis
    using p a dry_run_deploy [of init_state ok_world "''monitoring''" "''300s''" False]
      dry_run_deploy [of init_state ok_world "''hadoop''" "''300s''" False]
    by simp
qed

text \<open>
  C9, as stated, fails: the cluster rejects \<^verbatim>\<open>prometheus-rbac.yaml\<close> with exit code 1 and
  writes \<^verbatim>\<open>Error from server (Forbidden)\<close> to its standard error. The failure line and
  the logged record name the file and hold the command and the code, but the backend's
  text occurs in neither: nothing is captured, so the exception has no stderr.
\<close>

theorem apply_rejected_message_counterexample:
  "backend rejecting_world
     [version_cmd, context_cmd, apply_cmd (manifest_path rejecting_world ''monitoring'' ''namespace.yaml'') False]
     (apply_cmd (manifest_path rejecting_world ''monitoring'' ''prometheus-rbac.yaml'') False) =
     Exited 1 ''Error from server (Forbidden)'' \<and>
   out_stream (snd (deploy rejecting_world ''monitoring'' False ''300s'' False init_state)) =
     [M_applying ''namespace.yaml'', M_applying ''prometheus-rbac.yaml'',
      M_failed ''prometheus-rbac.yaml''
        (CalledProcessError 1
          [''kubectl'', ''apply'', ''-f'', ''/srv/cli/resource/monitoring/prometheus-rbac.yaml''] None None)] \<and>
   \<not> mentions
       (M_failed ''prometheus-rbac.yaml''
         (CalledProcessError 1
           [''kubectl'', ''apply'', ''-f'', ''/srv/cli/resource/monitoring/prometheus-rbac.yaml''] None None))
       ''Error from server (Forbidden)'' \<and>
   \<not> mentions
       (M_apply_exception (manifest_path rejecting_world ''monitoring'' ''prometheus-rbac.yaml'')
         (CalledProcessError 1
           [''kubectl'', ''apply'', ''-f'', ''/srv/cli/resource/monitoring/prometheus-rbac.yaml''] None None))
       ''Error from server (Forbidden)''"
proof -
  have p: "preflight_ok rejecting_world (trace init_state)"
    by (simp add: preflight_ok_def rejecting_world_def ok_world_def version_cmd_def context_cmd_def)
  have s: "stack_files ''monitoring'' = [''namespace.yaml''] @ ''prometheus-rbac.yaml'' #
     [''prometheus-config.yaml'', ''prometheus-deployment.yaml'', ''prometheus-service.yaml'',
      ''grafana-deployment.yaml'', ''grafana-service.yaml'', ''monitoring-ingress.yaml'']"
    by (simp add: stack_files_monitoring)
  have m1: "apply_cmd (manifest_path rejecting_world ''monitoring'' ''namespace.yaml'') False =
      [''kubectl'', ''apply'', ''-f'', ''/srv/cli/resource/monitoring/namespace.yaml'']"
    by (simp add: apply_cmd_def manifest_path_def joinpath_def resource_dir_for_def
        rejecting_world_def ok_world_def)
  have m2: "apply_cmd (manifest_path rejecting_world ''monitoring'' ''prometheus-rbac.yaml'') False =
      [''kubectl'', ''apply'', ''-f'', ''/srv/cli/resource/monitoring/prometheus-rbac.yaml'']"
    by (simp add: apply_cmd_def manifest_path_def joinpath_def resource_dir_for_def
        rejecting_world_def ok_world_def)
  have ps: "path_str (manifest_path rejecting_world ''monitoring'' ''prometheus-rbac.yaml'') =
      ''/srv/cli/resource/monitoring/prometheus-rbac.yaml''"
    by (simp add: manifest_path_def joinpath_def resource_dir_for_def rejecting_world_def ok_world_def)
  have x: "\<And>t f. path_exists rejecting_world t f" by (simp add: rejecting_world_def ok_world_def)
  have b1: "\<And>t. backend rejecting_world t
      [''kubectl'', ''apply'', ''-f'', ''/srv/cli/resource/monitoring/namespace.yaml''] = Exited 0 []"
    by (simp add: rejecting_world_def ok_world_def)
  have b2: "\<And>t. backend rejecting_world t
      [''kubectl'', ''apply'', ''-f'', ''/srv/cli/resource/monitoring/prometheus-rbac.yaml''] =
      Exited 1 ''Error from server (Forbidden)''"
    by (simp add: rejecting_world_def ok_world_def)
  have a: "applies_ok rejecting_world False (trace init_state @ [version_cmd, context_cmd])
      (map (manifest_path rejecting_world ''monitoring'') [''namespace.yaml''])"
    by (simp add: apply_error_def x b1 m1)
  have e: "apply_error rejecting_world False
      (trace init_state @ [version_cmd, context_cmd] @
       map (\<lambda>n. apply_cmd (manifest_path rejecting_world ''monitoring'' n) False) [''namespace.yaml''])
      (manifest_path rejecting_world ''monitoring'' ''prometheus-rbac.yaml'') =
      Some (CalledProcessError 1
        [''kubectl'', ''apply'', ''-f'', ''/srv/cli/resource/monitoring/prometheus-rbac.yaml''] None None)"
    by (simp add: apply_error_def x b2 m2)
  have o: "out_stream init_state = []" by (simp add: init_state_def)
  have n1: "\<not> mentions
       (M_failed ''prometheus-rbac.yaml''
         (CalledProcessError 1
           [''kubectl'', ''apply'', ''-f'', ''/srv/cli/resource/monitoring/prometheus-rbac.yaml''] None None))
       ''Error from server (Forbidden)''"
    by (simp add: mentions_def sublist_Cons_right)
  have n2: "\<not> mentions
       (M_apply_exception (manifest_path rejecting_world ''monitoring'' ''prometheus-rbac.yaml'')
         (CalledProcessError 1
           [''kubectl'', ''apply'', ''-f'', ''/srv/cli/resource/monitoring/prometheus-rbac.yaml''] None None))
       ''Error from server (Forbidden)''"
    by (simp add: mentions_def ps sublist_Cons_right)
  show ?thesis
    using deploy_first_failure [OF p s a e, of "''300s''" False] n1 n2
    by (simp add: o m1 m2 b2)
qed

text \<open>
  C9, amended. When the apply of manifest \<open>B\<close> of the monitoring stack exits with a
  non-zero code \<open>rc\<close>, \<^verbatim>\<open>deploy\<close> ends with \<^verbatim>\<open>typer.Exit(1)\<close> after writing a failure line
  with the file name \<open>B\<close> and the \<^verbatim>\<open>CalledProcessError\<close>, which holds \<open>rc\<close> and the command
  line (with the path of \<open>B\<close>) and neither output nor stderr; the same exception is logged
  at ERROR with the path. What the backend wrote to standard error reaches the terminal
  from the child process itself, not through a message of the orchestrator.
\<close>

theorem apply_rejected_message:
  assumes p: "preflight_ok w (trace st)"
    and s: "stack_files ''monitoring'' = A @ B # C"
    and a: "applies_ok w dry_run (trace st @ [version_cmd, context_cmd]) (map (manifest_path w ''monitoring'') A)"
    and x: "path_exists w
        (trace st @ [version_cmd, context_cmd] @ map (\<lambda>n. apply_cmd (manifest_path w ''monitoring'' n) dry_run) A)
        (manifest_path w ''monitoring'' B)"
    and b: "backend w
        (trace st @ [version_cmd, context_cmd] @ map (\<lambda>n. apply_cmd (manifest_path w ''monitoring'' n) dry_run) A)
        (apply_cmd (manifest_path w ''monitoring'' B) dry_run) = Exited rc err"
    and n: "rc \<noteq> 0"
  shows "fst (deploy w ''monitoring'' dry_run timeout verbose st) = Inl (Exit 1) \<and>
     M_failed B (CalledProcessError rc (apply_cmd (manifest_path w ''monitoring'' B) dry_run) None None)
       \<in> set (out_stream (snd (deploy w ''monitoring'' dry_run timeout verbose st))) \<and>
     LogRecord ERROR (M_apply_exception (manifest_path w ''monitoring'' B)
         (CalledProcessError rc (apply_cmd (manifest_path w ''monitoring'' B) dry_run) None None))
       \<in> set (err_stream (snd (deploy w ''monitoring'' dry_run timeout verbose st))) \<and>
     mentions (M_failed B (CalledProcessError rc (apply_cmd (manifest_path w ''monitoring'' B) dry_run) None None)) B \<and>
     mentions (M_failed B (CalledProcessError rc (apply_cmd (manifest_path w ''monitoring'' B) dry_run) None None))
       (path_str (manifest_path w ''monitoring'' B)) \<and>
     ChildStderr err \<in> set (err_stream (snd (deploy w ''monitoring'' dry_run timeout verbose st)))"
proof -
  let ?mp = "manifest_path w ''monitoring''"
  let ?e = "CalledProcessError rc (apply_cmd (?mp B) dry_run) None None"
  let ?r = "deploy w ''monitoring'' dry_run timeout verbose st"
  let ?ls = "loop_start w verbose st"
  have e: "apply_error w dry_run
      (trace st @ [version_cmd, context_cmd] @ map (\<lambda>n. apply_cmd (?mp n) dry_run) A) (?mp B) = Some ?e"
    using x b n by (simp add: apply_error_def)
  from deploy_first_failure [OF p s a e, of timeout verbose]
  have f: "fst ?r = Inl (Exit 1)"
    and o: "out_stream (snd ?r) = out_stream st @ map M_applying A @ [M_applying B, M_failed B ?e]"
    and l: "\<exists>es. err_stream (snd ?r) = es @ [LogRecord ERROR (M_apply_exception (?mp B) ?e)]"
    by simp_all
  have l': "LogRecord ERROR (M_apply_exception (?mp B) ?e) \<in> set (err_stream (snd ?r))"
    using l by auto
  have m1: "mentions (M_failed B ?e) B" by (simp add: mentions_def)
  have m2: "mentions (M_failed B ?e) (path_str (?mp B))" by (simp add: mentions_def apply_cmd_def)
  have tl: "trace ?ls = trace st @ [version_cmd, context_cmd]" using p by (rule loop_start_trace)
  have ps: "manifest_paths w ''monitoring'' = map ?mp A @ ?mp B # map ?mp C"
    by (simp add: manifest_paths_def s)
  have a': "applies_ok w dry_run (trace ?ls) (map ?mp A)" using a tl by simp
  have x': "path_exists w (trace ?ls @ map (\<lambda>f. apply_cmd f dry_run) (map ?mp A)) (?mp B)"
    using x tl by (simp add: comp_def)
  have b': "backend w (trace ?ls @ map (\<lambda>f. apply_cmd f dry_run) (map ?mp A)) (apply_cmd (?mp B) dry_run) =
      Exited rc err"
    using b tl by (simp add: comp_def)
  have e': "apply_error w dry_run (trace ?ls @ map (\<lambda>f. apply_cmd f dry_run) (map ?mp A)) (?mp B) = Some ?e"
    using e tl by (simp add: comp_def)
  have k: "sink_level ?ls = Some (if verbose then 10 else 20)" by simp
  have le: "(if verbose then 10 else 20) \<le> (40::nat)" by simp
  from apply_files_fail [OF a' e' k le, of "map ?mp C"]
  have af: "fst (apply_files w dry_run (manifest_paths w ''monitoring'') ?ls) = Inl (Exit 1)"
    unfolding ps by simp
  have c: "ChildStderr err \<in> set (err_stream (snd ?r))"
    unfolding deploy_failure_state [OF p af] ps
    using apply_files_rejected_stderr [OF a' x' b' n, of "map ?mp C"] by simp
  show ?thesis using f o l' m1 m2 c by simp
qed

theorem apply_rejected_message_witness:
  "preflight_ok rejecting_world (trace init_state) \<and>
   stack_files ''monitoring'' = [''namespace.yaml''] @ ''prometheus-rbac.yaml'' #
     [''prometheus-config.yaml'', ''prometheus-deployment.yaml'', ''prometheus-service.yaml'',
      ''grafana-deployment.yaml'', ''grafana-service.yaml'', ''monitoring-ingress.yaml''] \<and>
   fst (deploy rejecting_world ''monitoring'' True ''300s'' True init_state) = Inl (Exit 1) \<and>
   M_failed ''prometheus-rbac.yaml''
     (CalledProcessError 1
       [''kubectl'', ''apply'', ''-f'', ''/srv/cli/resource/monitoring/prometheus-rbac.yaml'', ''--dry-run=server'']
       None None)
     \<in> set (out_stream (snd (deploy rejecting_world ''monitoring'' True ''300s'' True init_state))) \<and>
   ChildStderr ''Error from server (Forbidden)''
     \<in> set (err_stream (snd (deploy rejecting_world ''monitoring'' True ''300s'' True init_state)))"
proof -
  have p: "preflight_ok rejecting_world (trace init_state)"
    by (simp add: preflight_ok_def rejecting_world_def ok_world_def version_cmd_def context_cmd_def)
  have s: "stack_files ''monitoring'' = [''namespace.yaml''] @ ''prometheus-rbac.yaml'' #
     [''prometheus-config.yaml'', ''prometheus-deployment.yaml'', ''prometheus-service.yaml'',
      ''grafana-deployment.yaml'', ''grafana-service.yaml'', ''monitoring-ingress.yaml'']"
    by (simp add: stack_files_monitoring)
  have m1: "apply_cmd (manifest_path rejecting_world ''monitoring'' ''namespace.yaml'') True =
      [''kubectl'', ''apply'', ''-f'', ''/srv/cli/resource/monitoring/namespace.yaml'', ''--dry-run=server'']"
    by (simp add: apply_cmd_def manifest_path_def joinpath_def resource_dir_for_def
        rejecting_world_def ok_world_def)
  have m2: "apply_cmd (manifest_path rejecting_world ''monitoring'' ''prometheus-rbac.yaml'') True =
      [''kubectl'', ''apply'', ''-f'', ''/srv/cli/resource/monitoring/prometheus-rbac.yaml'', ''--dry-run=server'']"
    by (simp add: apply_cmd_def manifest_path_def joinpath_def resource_dir_for_def
        rejecting_world_def ok_world_def)
  have x: "\<And>t f. path_exists rejecting_world t f" by (simp add: rejecting_world_def ok_world_def)
  have b1: "\<And>t. backend rejecting_world t
      [''kubectl'', ''apply'', ''-f'', ''/srv/cli/resource/monitoring/namespace.yaml'', ''--dry-run=server''] =
      Exited 0 []"
    by (simp add: rejecting_world_def ok_world_def)
  have b2: "\<And>t. backend rejecting_world t
      [''kubectl'', ''apply'', ''-f'', ''/srv/cli/resource/monitoring/prometheus-rbac.yaml'', ''--dry-run=server''] =
      Exited 1 ''Error from server (Forbidden)''"
    by (simp add: rejecting_world_def ok_world_def)
  have a: "applies_ok rejecting_world True (trace init_state @ [version_cmd, context_cmd])
      (map (manifest_path rejecting_world ''monitoring'') [''namespace.yaml''])"
    by (simp add: apply_error_def x b1 m1)
  have b: "backend rejecting_world
      (trace init_state @ [version_cmd, context_cmd] @
       map (\<lambda>n. apply_cmd (manifest_path rejecting_world ''monitoring'' n) True) [''namespace.yaml''])
      (apply_cmd (manifest_path rejecting_world ''monitoring'' ''prometheus-rbac.yaml'') True) =
      Exited 1 ''Error from server (Forbidden)''"
    unfolding m2 by (rule b2)
  have n: "(1::int) \<noteq> 0" by simp
  show ?thesis
    using p s apply_rejected_message [OF p s a x b n, of "''300s''" True]
    by (simp add: m2)
qed


end
